theory Spec2Isabelle
  imports Main "HOL-Library.AList"
begin

section \<open>Objects of the component graph\<close>

text \<open>
  Components and Sockets are Python objects that are mutated in place and referred to
  from several places (a Socket from its Component's lists and from the connection lists of
  other Sockets, a Component from its parent's \<open>sub_components\<close>). They are modelled
  as cells of two stores, addressed by references; every method takes the state and returns
  the new one, or an error for every \<open>raise\<close> and failed \<open>assert\<close>.

  Strings are Python 3 strings over the code points below U+0100, one \<open>char\<close> for
  each code point.
\<close>

type_synonym cid = nat
type_synonym sid = nat
type_synonym space = string
type_synonym var = nat

datatype error = YARLError | AssertionError | KeyError | TypeError | RecursionError

text \<open>A numeric constant, or a \<open>SingleDataOp(constant_value=v)\<close> wrapped around one.\<close>

datatype pyval = Num int | SingleDataOp pyval

record graph_fn =
  gf_method :: string
  gf_component :: cid
  gf_input_sockets :: "sid list"
  gf_output_sockets :: "sid list"
  gf_flatten_ops :: bool
  gf_split_ops :: bool
  gf_add_auto_key_as_first_param :: bool
  gf_unflatten_ops :: bool

datatype connection = ToSocket sid | ToSpace space | ToDataOp pyval | ToGraphFn graph_fn

text \<open>
  Modelled from the spec: the class \<open>Socket\<close> of \<open>yarl.components.socket_and_graph_fn\<close>
  is not among the sources. A socket belongs to exactly one component, has a direction
  fixed at creation, holds zero or more connections (to other sockets, to a constant value,
  to a space, to an operation binding) and holds a space once resolved.
\<close>

record socket =
  sock_name :: string
  sock_component :: cid
  sock_type :: string
  sock_space :: "space option"
  incoming_connections :: "connection list"
  outgoing_connections :: "connection list"

record component =
  scope :: string
  global_scope :: string
  name :: string
  flatten_ops :: bool
  split_ops :: bool
  add_auto_key_as_first_param :: bool
  unflatten_ops :: bool
  sub_components :: "(string \<times> cid) list"
  graph_fns :: "graph_fn list"
  parent_component :: "cid option"
  input_sockets :: "sid list"
  output_sockets :: "sid list"
  internal_sockets :: "sid list"
  input_complete :: bool
  no_input_entry_points :: "graph_fn list"
  variables :: "(string \<times> var) list"

text \<open>
  The state: the component cells, the socket cells, the next free socket reference (a
  \<open>Socket(...)\<close> call allocates it), and the source of \<open>uuid.uuid1()\<close> strings with
  the number of calls made so far.
\<close>

record state =
  components :: "cid \<Rightarrow> component"
  sockets :: "sid \<Rightarrow> socket"
  next_socket :: sid
  uuid1 :: "nat \<Rightarrow> string"
  uuid_calls :: nat

section \<open>Regular expressions of the source\<close>

text \<open>
  The patterns of the source are \<open>str\<close> patterns, so \<open>\d\<close> and \<open>\w\<close> are the
  Unicode-aware classes of \<open>re\<close>. Below U+0100 the decimal digits are the ten ASCII ones,
  and the word characters are the ASCII letters, the digits and the underscore together
  with the alphanumeric characters of Latin-1: U+00AA, U+00B2, U+00B3, U+00B5, U+00B9, U+00BA,
  U+00BC to U+00BE, U+00C0 to U+00D6, U+00D8 to U+00F6 and U+00F8 to U+00FF.
\<close>

definition is_digit :: "char \<Rightarrow> bool" where
  "is_digit c = (c \<in> set ''0123456789'')"

definition is_word_char :: "char \<Rightarrow> bool" where
  "is_word_char c =
     (c \<in> set ''abcdefghijklmnopqrstuvwxyzABCDEFGHIJKLMNOPQRSTUVWXYZ0123456789_''
      \<or> (of_char c :: nat) \<in> set [0xAA, 0xB2, 0xB3, 0xB5, 0xB9, 0xBA, 0xBC, 0xBD, 0xBE]
      \<or> (0xC0 \<le> (of_char c :: nat) \<and> (of_char c :: nat) \<noteq> 0xD7 \<and> (of_char c :: nat) \<noteq> 0xF7))"

text \<open>
  \<open>re.match(r'^[\w\-]*$', scope)\<close>. Without the MULTILINE flag, \<open>$\<close> matches at the end
  of the string and also just before a newline that is the last character.
\<close>

fun scope_pattern_matches :: "string \<Rightarrow> bool" where
  "scope_pattern_matches [] = True"
| "scope_pattern_matches (c # cs) =
     ((is_word_char c \<or> c = CHR ''-'') \<and> scope_pattern_matches cs \<or> (c = CHR 0x0A \<and> cs = []))"

text \<open>
  \<open>re.search(r'([\d_]|\b)(in|out)put([\d_]|\b)', name)\<close> and its group 2.
  \<open>word_boundary\<close> is \<open>\b\<close> between the character before and the character after a
  position (\<open>None\<close> at either end of the string).
\<close>

definition word_boundary :: "char option \<Rightarrow> char option \<Rightarrow> bool" where
  "word_boundary prev nxt =
     ((case prev of None \<Rightarrow> False | Some c \<Rightarrow> is_word_char c)
      \<noteq> (case nxt of None \<Rightarrow> False | Some c \<Rightarrow> is_word_char c))"

text \<open>Group 3, tried right after \<open>put\<close>: one of \<open>[\d_]\<close>, or a word boundary.\<close>

definition delimiter_after :: "string \<Rightarrow> bool" where
  "delimiter_after rest =
     (case rest of
        [] \<Rightarrow> word_boundary (Some CHR ''t'') None
      | c # _ \<Rightarrow> is_digit c \<or> c = CHR ''_'' \<or> word_boundary (Some CHR ''t'') (Some c))"

text \<open>\<open>(in|out)put([\d_]|\b)\<close> at the head of a string: group 2 if it matches there.\<close>

definition keyword_at :: "string \<Rightarrow> string option" where
  "keyword_at s =
     (if take 5 s = ''input'' \<and> delimiter_after (drop 5 s) then Some ''in''
      else if take 6 s = ''output'' \<and> delimiter_after (drop 6 s) then Some ''out''
      else None)"

text \<open>
  The whole pattern at one start position: group 1 first consumes one of \<open>[\d_]\<close>, and
  on failure is retried as the zero-width \<open>\b\<close>.
\<close>

definition match_at :: "char option \<Rightarrow> string \<Rightarrow> string option" where
  "match_at prev s =
     (case (case s of
              [] \<Rightarrow> None
            | c # s' \<Rightarrow> if is_digit c \<or> c = CHR ''_'' then keyword_at s' else None) of
        Some t \<Rightarrow> Some t
      | None \<Rightarrow>
          if word_boundary prev (case s of [] \<Rightarrow> None | c # _ \<Rightarrow> Some c)
          then keyword_at s else None)"

text \<open>\<open>re.search\<close>: the leftmost start position at which the pattern matches.\<close>

fun search_from :: "char option \<Rightarrow> string \<Rightarrow> string option" where
  "search_from prev [] = match_at prev []"
| "search_from prev (c # s) =
     (case match_at prev (c # s) of
        Some t \<Rightarrow> Some t
      | None \<Rightarrow> search_from (Some c) s)"

definition infer_socket_type :: "string \<Rightarrow> string option" where
  "infer_socket_type nm = search_from None nm"

section \<open>Socket methods\<close>

text \<open>
  Modelled from the spec: \<open>Socket.connect_to\<close>, \<open>connect_from\<close>, \<open>disconnect_to\<close> and
  \<open>disconnect_from\<close> are not among the sources. The spec says that connect and disconnect
  "mutate the connection lists", and that the connection graph is "the union of each
  socket's connection list": connecting records the peer in the list once, disconnecting
  removes it. The \<open>label\<close> argument, which \<open>connect\<close> never supplies, is left out.
\<close>

definition connect_to :: "state \<Rightarrow> sid \<Rightarrow> connection \<Rightarrow> state" where
  "connect_to st s to_conn =
     (let sock = sockets st s in
      if to_conn \<in> set (outgoing_connections sock) then st
      else st\<lparr>sockets := (sockets st)
             (s := sock\<lparr>outgoing_connections := outgoing_connections sock @ [to_conn]\<rparr>)\<rparr>)"

definition connect_from :: "state \<Rightarrow> sid \<Rightarrow> connection \<Rightarrow> state" where
  "connect_from st s from_conn =
     (let sock = sockets st s in
      if from_conn \<in> set (incoming_connections sock) then st
      else st\<lparr>sockets := (sockets st)
             (s := sock\<lparr>incoming_connections := incoming_connections sock @ [from_conn]\<rparr>)\<rparr>)"

definition disconnect_to :: "state \<Rightarrow> sid \<Rightarrow> connection \<Rightarrow> state" where
  "disconnect_to st s to_conn =
     (let sock = sockets st s in
      st\<lparr>sockets := (sockets st)
        (s := sock\<lparr>outgoing_connections := remove1 to_conn (outgoing_connections sock)\<rparr>)\<rparr>)"

definition disconnect_from :: "state \<Rightarrow> sid \<Rightarrow> connection \<Rightarrow> state" where
  "disconnect_from st s from_conn =
     (let sock = sockets st s in
      st\<lparr>sockets := (sockets st)
        (s := sock\<lparr>incoming_connections := remove1 from_conn (incoming_connections sock)\<rparr>)\<rparr>)"

section \<open>Component: construction, sockets, completeness\<close>

text \<open>
  \<open>Component.__init__\<close> called with \<open>scope\<close> and optionally \<open>name\<close>, every other
  keyword at its default and no sub-component specification: the scope assertion, then the
  initial field values (\<open>define_inputs\<close>, \<open>define_outputs\<close> and the two loops have
  nothing to do).
\<close>

definition init_fields :: "string \<Rightarrow> string option \<Rightarrow> component" where
  "init_fields scope_arg name_arg =
     \<lparr>scope = scope_arg,
      global_scope = scope_arg,
      name = (case name_arg of None \<Rightarrow> scope_arg | Some n \<Rightarrow> n),
      flatten_ops = True,
      split_ops = False,
      add_auto_key_as_first_param = False,
      unflatten_ops = True,
      sub_components = [],
      graph_fns = [],
      parent_component = None,
      input_sockets = [],
      output_sockets = [],
      internal_sockets = [],
      input_complete = False,
      no_input_entry_points = [],
      variables = []\<rparr>"

definition Component_init :: "string \<Rightarrow> string option \<Rightarrow> error + component" where
  "Component_init scope_arg name_arg =
     (if \<not> scope_pattern_matches scope_arg then Inl AssertionError
      else Inr (init_fields scope_arg name_arg))"

text \<open>
  \<open>add_socket(name, value=None, type=None, internal=False)\<close>. The type is inferred
  before the name is looked up; any type other than \<open>"in"\<close> files an exposed socket under
  the out-sockets.
\<close>

definition add_socket ::
  "state \<Rightarrow> cid \<Rightarrow> string \<Rightarrow> pyval option \<Rightarrow> string option \<Rightarrow> bool \<Rightarrow> error + state" where
  "add_socket st self nm constant_value type_arg internal =
     (let c = components st self;
          all_names = map (\<lambda>x. sock_name (sockets st x))
                        (input_sockets c @ output_sockets c @ internal_sockets c)
      in case (case type_arg of None \<Rightarrow> infer_socket_type nm | Some t \<Rightarrow> Some t) of
           None \<Rightarrow> Inl YARLError
         | Some ty \<Rightarrow>
             if nm \<in> set all_names then Inl YARLError
             else
               let sock = next_socket st;
                   st1 = st\<lparr>sockets := (sockets st)
                           (sock := \<lparr>sock_name = nm, sock_component = self, sock_type = ty,
                                     sock_space = None, incoming_connections = [],
                                     outgoing_connections = []\<rparr>),
                           next_socket := Suc sock\<rparr>;
                   c' = (if internal then c\<lparr>internal_sockets := internal_sockets c @ [sock]\<rparr>
                         else if ty = ''in'' then c\<lparr>input_sockets := input_sockets c @ [sock]\<rparr>
                         else c\<lparr>output_sockets := output_sockets c @ [sock]\<rparr>);
                   st2 = st1\<lparr>components := (components st1)(self := c')\<rparr>
               in Inr (case constant_value of
                         None \<Rightarrow> st2
                       | Some v \<Rightarrow> connect_from st2 sock (ToDataOp (SingleDataOp v))))"

text \<open>\<open>add_sockets(*socket_names, **kwargs)\<close>: the first error ends the loop.\<close>

fun add_sockets ::
  "state \<Rightarrow> cid \<Rightarrow> string list \<Rightarrow> pyval option \<Rightarrow> string option \<Rightarrow> bool \<Rightarrow> error + state" where
  "add_sockets st self [] constant_value type_arg internal = Inr st"
| "add_sockets st self (nm # nms) constant_value type_arg internal =
     (case add_socket st self nm constant_value type_arg internal of
        Inl e \<Rightarrow> Inl e
      | Inr st' \<Rightarrow> add_sockets st' self nms constant_value type_arg internal)"

text \<open>
  \<open>check_input_completeness\<close>: the loop over the in-sockets only ever resets the flag it
  has just set.
\<close>

definition check_input_completeness :: "state \<Rightarrow> cid \<Rightarrow> state" where
  "check_input_completeness st self =
     (let c = components st self in
      if \<not> input_complete c then
        st\<lparr>components := (components st)
          (self := c\<lparr>input_complete :=
             fold (\<lambda>in_sock flag. if sock_space (sockets st in_sock) = None then False else flag)
               (input_sockets c) True\<rparr>)\<rparr>
      else st)"

section \<open>Socket specifiers and lookup\<close>

text \<open>
  The source dispatches on the run-time type of a specifier. The forms it tells apart:
  \<open>None\<close>; a string; a Socket object; a numeric constant (int, float, bool, array); a
  two-item tuple or list of a Component (object or sub-component name) and a socket (name
  or object); a space (a \<open>Space\<close>, a dict, or a key of \<open>Space.__lookup_classes__\<close>, all
  turned into a Space by \<open>Space.from_spec\<close>); a \<open>SingleDataOp\<close>; a Component object.
\<close>

datatype comp_ref = CompObj cid | CompName string

datatype pair_item = ItemName string | ItemSocket sid | ItemOther

datatype spec =
    SNone
  | SStr string
  | SSocket sid
  | SConst int
  | SPair comp_ref pair_item
  | SSpace space
  | SDataOp pyval
  | SComp cid

text \<open>\<open>get_socket_by_name(component, name, type_=None)\<close>, a static method.\<close>

definition get_socket_by_name :: "state \<Rightarrow> cid \<Rightarrow> string \<Rightarrow> string option \<Rightarrow> sid option" where
  "get_socket_by_name st component nm type_arg =
     (let c = components st component;
          named = (\<lambda>x. sock_name (sockets st x) = nm)
      in if type_arg \<noteq> Some ''in'' then
           (case find named (output_sockets c @ internal_sockets c) of
              Some x \<Rightarrow> Some x
            | None \<Rightarrow> if type_arg = None then find named (input_sockets c) else None)
         else find named (input_sockets c @ internal_sockets c))"

text \<open>
  The first half of \<open>get_socket\<close>, up to the comment "No Socket found": the state (a
  \<open>uuid1\<close> call changes it), \<open>socket_name\<close>, \<open>socket_obj\<close> and \<open>constant_dataop\<close>.
  The two early returns come out as a found \<open>socket_obj\<close>, which the second half returns
  as it is. A specifier that is none of the listed forms reaches \<open>len(socket)\<close> or the
  \<open>isinstance\<close> assertion and fails there.
\<close>

definition resolve_socket ::
  "state \<Rightarrow> cid \<Rightarrow> spec \<Rightarrow> string option
     \<Rightarrow> error + (state \<times> pair_item \<times> sid option \<times> pyval option)" where
  "resolve_socket st self sp type_arg =
     (case sp of
        SNone \<Rightarrow>
          (case type_arg of
             None \<Rightarrow> Inl AssertionError
           | Some t \<Rightarrow>
               let list = (if t = ''out'' then output_sockets (components st self)
                           else input_sockets (components st self))
               in if length list \<noteq> 1 then Inl AssertionError
                  else Inr (st, ItemOther, Some (hd list), None))
      | SStr s \<Rightarrow> Inr (st, ItemName s, get_socket_by_name st self s type_arg, None)
      | SSocket x \<Rightarrow> Inr (st, ItemSocket x, Some x, None)
      | SConst n \<Rightarrow>
          Inr (st\<lparr>uuid_calls := Suc (uuid_calls st)\<rparr>,
               ItemName (name (components st self) @ ''-'' @ uuid1 st (uuid_calls st)),
               None, Some (SingleDataOp (Num n)))
      | SPair cref item \<Rightarrow>
          (case (case cref of
                   CompObj c \<Rightarrow> Some c
                 | CompName n \<Rightarrow> map_of (sub_components (components st self)) n) of
             None \<Rightarrow> Inl YARLError
           | Some component \<Rightarrow>
               Inr (st, item,
                    (case item of
                       ItemSocket x \<Rightarrow> Some x
                     | ItemName n \<Rightarrow> get_socket_by_name st component n type_arg
                     | ItemOther \<Rightarrow> None),
                    None))
      | SSpace _ \<Rightarrow> Inl TypeError
      | SDataOp _ \<Rightarrow> Inl TypeError
      | SComp _ \<Rightarrow> Inl TypeError)"

text \<open>
  \<open>get_socket(socket=None, type_=None, create_internal_if_not_found=False)\<close>. The
  second half: a socket that was not found is created as an internal socket of \<open>self\<close>
  with \<open>type_="in"\<close> and then fetched with \<open>self.get_socket(socket_name)\<close>, a call with
  the default arguments, so one that only looks the name up and raises when it is absent.
  A \<open>socket_name\<close> that is not a string is passed on to that call as a constant, which
  raises as well.
\<close>

definition get_socket ::
  "state \<Rightarrow> cid \<Rightarrow> spec \<Rightarrow> string option \<Rightarrow> bool \<Rightarrow> error + (state \<times> sid)" where
  "get_socket st self sp type_arg create_internal_if_not_found =
     (case resolve_socket st self sp type_arg of
        Inl e \<Rightarrow> Inl e
      | Inr (st1, socket_name, socket_obj, constant_dataop) \<Rightarrow>
          (case socket_obj of
             Some x \<Rightarrow> Inr (st1, x)
           | None \<Rightarrow>
               if create_internal_if_not_found then
                 (case socket_name of
                    ItemName nm \<Rightarrow>
                      (case add_socket st1 self nm constant_dataop (Some ''in'') True of
                         Inl e \<Rightarrow> Inl e
                       | Inr st2 \<Rightarrow>
                           (case get_socket_by_name st2 self nm None of
                              Some x \<Rightarrow> Inr (st2, x)
                            | None \<Rightarrow> Inl YARLError))
                  | _ \<Rightarrow> Inl YARLError)
               else Inl YARLError))"

section \<open>Connecting\<close>

text \<open>The last block of \<open>_connect_disconnect\<close>, on the two Socket objects found.\<close>

definition connect_socket_objs :: "state \<Rightarrow> sid \<Rightarrow> sid \<Rightarrow> bool \<Rightarrow> error + state" where
  "connect_socket_objs st from_socket_obj to_socket_obj disconnect_flag =
     (if disconnect_flag then
        if sock_component (sockets st from_socket_obj) = sock_component (sockets st to_socket_obj)
        then Inl YARLError
        else Inr (disconnect_from (disconnect_to st from_socket_obj (ToSocket to_socket_obj))
                    to_socket_obj (ToSocket from_socket_obj))
      else Inr (connect_from (connect_to st from_socket_obj (ToSocket to_socket_obj))
                  to_socket_obj (ToSocket from_socket_obj)))"

text \<open>
  \<open>_connect_disconnect(from_, to_, disconnect=False)\<close>. For two Components the source
  calls \<open>self.connect(out_sock, in_sock)\<close> on each pair of Socket objects; such a call
  passes both type tests, gets each object back from \<open>get_socket\<close> and runs the last
  block with \<open>disconnect=False\<close>, which is what the loop here does.
\<close>

definition connect_disconnect :: "state \<Rightarrow> cid \<Rightarrow> spec \<Rightarrow> spec \<Rightarrow> bool \<Rightarrow> error + state" where
  "connect_disconnect st self from_spec to_spec disconnect_flag =
     (let from_space = (case from_spec of
                          SSpace sp \<Rightarrow> Some (ToSpace sp)
                        | SDataOp v \<Rightarrow> Some (ToDataOp v)
                        | _ \<Rightarrow> None);
          to_space = (case to_spec of SSpace sp \<Rightarrow> Some (ToSpace sp) | _ \<Rightarrow> None)
      in case from_space of
           Some from_conn \<Rightarrow>
             (case get_socket st self to_spec None False of
                Inl e \<Rightarrow> Inl e
              | Inr (st1, to_socket_obj) \<Rightarrow>
                  if sock_type (sockets st1 to_socket_obj) \<noteq> ''in'' then Inl AssertionError
                  else if \<not> disconnect_flag then Inr (connect_from st1 to_socket_obj from_conn)
                  else Inr (disconnect_from st1 to_socket_obj from_conn))
         | None \<Rightarrow>
             (case to_space of
                Some to_conn \<Rightarrow>
                  (case get_socket st self from_spec None False of
                     Inl e \<Rightarrow> Inl e
                   | Inr (st1, from_socket_obj) \<Rightarrow>
                       if sock_type (sockets st1 from_socket_obj) \<noteq> ''out''
                       then Inl AssertionError
                       else if \<not> disconnect_flag
                       then Inr (connect_to st1 from_socket_obj to_conn)
                       else Inr (disconnect_to st1 from_socket_obj to_conn))
              | None \<Rightarrow>
                  (case (from_spec, to_spec) of
                     (SComp from_comp, SComp to_comp) \<Rightarrow>
                       if length (output_sockets (components st from_comp))
                            \<noteq> length (input_sockets (components st to_comp))
                       then Inl AssertionError
                       else fold (\<lambda>(out_sock, in_sock) r.
                                    case r of
                                      Inl e \<Rightarrow> Inl e
                                    | Inr s \<Rightarrow> connect_socket_objs s out_sock in_sock False)
                              (zip (output_sockets (components st from_comp))
                                   (input_sockets (components st to_comp)))
                              (Inr st)
                   | _ \<Rightarrow>
                       (case (case from_spec of
                                SComp from_comp \<Rightarrow> get_socket st from_comp SNone (Some ''out'') False
                              | _ \<Rightarrow> get_socket st self from_spec None False) of
                          Inl e \<Rightarrow> Inl e
                        | Inr (st1, from_socket_obj) \<Rightarrow>
                            (case (case to_spec of
                                     SComp to_comp \<Rightarrow> get_socket st1 to_comp SNone (Some ''in'') False
                                   | _ \<Rightarrow> get_socket st1 self to_spec None False) of
                               Inl e \<Rightarrow> Inl e
                             | Inr (st2, to_socket_obj) \<Rightarrow>
                                 connect_socket_objs st2 from_socket_obj to_socket_obj
                                   disconnect_flag)))))"

definition connect :: "state \<Rightarrow> cid \<Rightarrow> spec \<Rightarrow> spec \<Rightarrow> error + state" where
  "connect st self from_spec to_spec = connect_disconnect st self from_spec to_spec False"

definition disconnect :: "state \<Rightarrow> cid \<Rightarrow> spec \<Rightarrow> spec \<Rightarrow> error + state" where
  "disconnect st self from_spec to_spec = connect_disconnect st self from_spec to_spec True"

section \<open>Operation bindings\<close>

text \<open>
  \<open>[self.get_socket(s, create_internal_if_not_found=True) for s in inputs]\<close>: the
  sockets are fetched from left to right, each in the state the one before has left.
\<close>

fun get_sockets :: "state \<Rightarrow> cid \<Rightarrow> spec list \<Rightarrow> error + (state \<times> sid list)" where
  "get_sockets st self [] = Inr (st, [])"
| "get_sockets st self (s # ss) =
     (case get_socket st self s None True of
        Inl e \<Rightarrow> Inl e
      | Inr (st1, x) \<Rightarrow>
          (case get_sockets st1 self ss of
             Inl e \<Rightarrow> Inl e
           | Inr (st2, xs) \<Rightarrow> Inr (st2, x # xs)))"

text \<open>
  \<open>add_graph_fn(inputs, outputs, method=None, flatten_ops=None, split_ops=None,
  add_auto_key_as_first_param=None, unflatten_ops=None)\<close>, on the lists that
  \<open>util.force_list\<close> returns. \<open>callables\<close> stands for the names in \<open>dir(self)\<close> that
  are callable, among which the source looks for the only one that starts with
  \<open>_graph_\<close> when no method is given.
\<close>

definition add_graph_fn ::
  "state \<Rightarrow> cid \<Rightarrow> spec list \<Rightarrow> spec list \<Rightarrow> string option \<Rightarrow> string list
     \<Rightarrow> bool option \<Rightarrow> bool option \<Rightarrow> bool option \<Rightarrow> bool option \<Rightarrow> error + state" where
  "add_graph_fn st self inputs outputs method_arg callables
       flatten_arg split_arg auto_key_arg unflatten_arg =
     (case (case method_arg of
              Some m \<Rightarrow> Inr m
            | None \<Rightarrow>
                let found = filter (\<lambda>m. take 7 m = ''_graph_'') callables
                in if length found \<noteq> 1 then Inl YARLError else Inr (drop 7 (hd found))) of
        Inl e \<Rightarrow> Inl e
      | Inr m \<Rightarrow>
          (case get_sockets st self inputs of
             Inl e \<Rightarrow> Inl e
           | Inr (st1, ins) \<Rightarrow>
               (case get_sockets st1 self outputs of
                  Inl e \<Rightarrow> Inl e
                | Inr (st2, outs) \<Rightarrow>
                    let c = components st2 self;
                        gf = \<lparr>gf_method = m,
                              gf_component = self,
                              gf_input_sockets = ins,
                              gf_output_sockets = outs,
                              gf_flatten_ops =
                                (case flatten_arg of None \<Rightarrow> flatten_ops c | Some b \<Rightarrow> b),
                              gf_split_ops =
                                (case split_arg of None \<Rightarrow> split_ops c | Some b \<Rightarrow> b),
                              gf_add_auto_key_as_first_param =
                                (case auto_key_arg of
                                   None \<Rightarrow> add_auto_key_as_first_param c
                                 | Some b \<Rightarrow> b),
                              gf_unflatten_ops =
                                (case unflatten_arg of None \<Rightarrow> unflatten_ops c | Some b \<Rightarrow> b)\<rparr>;
                        st3 = st2\<lparr>components := (components st2)
                                (self := c\<lparr>graph_fns := graph_fns c @ [gf]\<rparr>)\<rparr>;
                        st4 = fold (\<lambda>input_socket s. connect_to s input_socket (ToGraphFn gf))
                                ins st3;
                        st5 = fold (\<lambda>output_socket s. connect_from s output_socket (ToGraphFn gf))
                                outs st4
                    in if length ins = 0
                       then Inr (st5\<lparr>components := (components st5)
                              (self := (components st5 self)
                                 \<lparr>no_input_entry_points :=
                                    no_input_entry_points (components st5 self) @ [gf]\<rparr>)\<rparr>)
                       else Inr st5)))"

section \<open>Sub-components and scopes\<close>

text \<open>
  \<open>propagate_scope(sub_component)\<close>. The method calls itself once per level of the
  subtree, and nothing in it stops it on a cyclic structure: the first argument is the
  depth of recursion the interpreter still allows, and running out of it is Python's
  \<open>RecursionError\<close>.
\<close>

fun propagate_scope :: "nat \<Rightarrow> state \<Rightarrow> cid \<Rightarrow> cid \<Rightarrow> error + state" where
  "propagate_scope 0 st self sub_component = Inl RecursionError"
| "propagate_scope (Suc depth) st self sub_component =
     (let st1 =
        (if global_scope (components st self) \<noteq> [] then
           st\<lparr>components := (components st)
             (sub_component := (components st sub_component)
                \<lparr>global_scope :=
                   global_scope (components st self)
                   @ (if scope (components st sub_component) \<noteq> []
                      then ''/'' @ scope (components st sub_component) else [])\<rparr>)\<rparr>
         else st)
      in fold (\<lambda>sc r. case r of
                         Inl e \<Rightarrow> Inl e
                       | Inr s \<Rightarrow> propagate_scope depth s sub_component sc)
           (map snd (sub_components (components st1 sub_component)))
           (Inr st1))"

text \<open>
  The \<open>connections\<close> argument of \<open>add_component\<close>: \<open>None\<close>, a list of names and of
  pairs (a sub-component socket name, and a name, a Socket object or a constant), \<open>True\<close>,
  \<open>CONNECT_INS\<close>, \<open>CONNECT_OUTS\<close>, or a single name.
\<close>

datatype other_sock = OtherStr string | OtherSocket sid | OtherConst int

datatype connection_item = Single string | Renamed string other_sock

datatype connections =
    ConnList "connection_item list"
  | ConnTrue
  | ConnIns
  | ConnOuts
  | ConnStr string

text \<open>
  The preprocessing of the connections spec into \<open>connect_spec\<close>, a dict in insertion
  order. When \<open>True\<close>, \<open>CONNECT_INS\<close> or \<open>CONNECT_OUTS\<close> finds no socket to
  expose, the source files the flag itself (the number 1 or 2) as the only key.
\<close>

definition connect_spec_of ::
  "state \<Rightarrow> cid \<Rightarrow> connections option \<Rightarrow> (pair_item \<times> other_sock) list" where
  "connect_spec_of st component conns =
     (case conns of
        None \<Rightarrow> []
      | Some (ConnList es) \<Rightarrow>
          fold (\<lambda>e spec. case e of
                           Single n \<Rightarrow> AList.update (ItemName n) (OtherStr n) spec
                         | Renamed n other \<Rightarrow> AList.update (ItemName n) other spec)
            es []
      | Some (ConnStr n) \<Rightarrow> [(ItemName n, OtherStr n)]
      | Some flag \<Rightarrow>
          let connect_list =
                (if flag = ConnIns \<or> flag = ConnTrue
                 then input_sockets (components st component) else [])
                @ (if flag = ConnOuts \<or> flag = ConnTrue
                   then output_sockets (components st component) else [])
          in if length connect_list > 0
             then fold (\<lambda>sock spec.
                          AList.update (ItemName (sock_name (sockets st sock)))
                            (OtherStr (sock_name (sockets st sock))) spec)
                    connect_list []
             else [(ItemOther, OtherConst (if flag = ConnOuts then 2 else 1))])"

text \<open>One round of the loop "Expose all Sockets in exposed_spec".\<close>

definition expose_socket ::
  "state \<Rightarrow> cid \<Rightarrow> cid \<Rightarrow> pair_item \<Rightarrow> other_sock \<Rightarrow> error + state" where
  "expose_socket st self component sub_component_sock other =
     (case get_socket st self (SPair (CompObj component) sub_component_sock) None False of
        Inl e \<Rightarrow> Inl e
      | Inr (st1, sock) \<Rightarrow>
          (case (case other of
                   OtherSocket x \<Rightarrow> Inr (st1, SSocket x)
                 | OtherConst n \<Rightarrow> Inr (st1, SDataOp (SingleDataOp (Num n)))
                 | OtherStr n \<Rightarrow>
                     (case get_socket_by_name st1 self n None of
                        Some _ \<Rightarrow> Inr (st1, SStr n)
                      | None \<Rightarrow>
                          (case add_socket st1 self n None (Some (sock_type (sockets st1 sock)))
                                  False of
                             Inl e \<Rightarrow> Inl e
                           | Inr st2 \<Rightarrow> Inr (st2, SStr n)))) of
             Inl e \<Rightarrow> Inl e
           | Inr (st2, other_spec) \<Rightarrow>
               if sock_type (sockets st2 sock) = ''in''
               then connect st2 self other_spec (SPair (CompObj component) (ItemSocket sock))
               else connect st2 self (SPair (CompObj component) (ItemSocket sock)) other_spec))"

text \<open>
  \<open>add_component(component, connections=None)\<close>; the first argument is the recursion
  depth left for \<open>propagate_scope\<close>.
\<close>

definition add_component ::
  "nat \<Rightarrow> state \<Rightarrow> cid \<Rightarrow> cid \<Rightarrow> connections option \<Rightarrow> error + state" where
  "add_component depth st self component conns =
     (if name (components st component) \<in> fst ` set (sub_components (components st self))
      then Inl YARLError
      else if parent_component (components st component) \<noteq> None then Inl YARLError
      else
        let st1 = st\<lparr>components := (components st)
                    (component := (components st component)\<lparr>parent_component := Some self\<rparr>)\<rparr>;
            st2 = st1\<lparr>components := (components st1)
                    (self := (components st1 self)
                       \<lparr>sub_components :=
                          AList.update (name (components st1 component)) component
                            (sub_components (components st1 self))\<rparr>)\<rparr>
        in case propagate_scope depth st2 self component of
             Inl e \<Rightarrow> Inl e
           | Inr st3 \<Rightarrow>
               fold (\<lambda>(sub_component_sock, other) r.
                       case r of
                         Inl e \<Rightarrow> Inl e
                       | Inr s \<Rightarrow> expose_socket s self component sub_component_sock other)
                 (connect_spec_of st3 component conns)
                 (Inr st3))"

section \<open>The variable registry\<close>

text \<open>
  \<open>get_variable(name, shape, dtype, initializer, trainable, from_space, ...)\<close>. The
  variable itself is made by the backend (\<open>from_space.get_tensor_variable\<close>,
  \<open>tf.get_variable\<close>), which the component sees as an opaque handle: \<open>created\<close> is
  the handle the backend returns.
\<close>

definition get_variable ::
  "state \<Rightarrow> cid \<Rightarrow> string \<Rightarrow> nat list option \<Rightarrow> pyval option \<Rightarrow> space option \<Rightarrow> var
     \<Rightarrow> error + (state \<times> var)" where
  "get_variable st self nm shape initializer from_space created =
     (let c = components st self in
      if shape = None \<and> initializer = None \<and> from_space = None then
        (case map_of (variables c) nm of
           None \<Rightarrow> Inl KeyError
         | Some v \<Rightarrow> Inr (st, v))
      else
        let key = (if global_scope c \<noteq> [] then global_scope c @ ''/'' else []) @ nm
        in Inr (st\<lparr>components := (components st)
                  (self := c\<lparr>variables := AList.update key created (variables c)\<rparr>)\<rparr>,
                created))"

text \<open>
  The loop of \<open>propagate_variables\<close> over the keys: the assertion, then the copy into
  the parent's registry.
\<close>

fun copy_to_parent :: "state \<Rightarrow> cid \<Rightarrow> cid \<Rightarrow> string list \<Rightarrow> error + state" where
  "copy_to_parent st self parent [] = Inr st"
| "copy_to_parent st self parent (key # keys) =
     (if key \<in> fst ` set (variables (components st parent)) then Inl AssertionError
      else case map_of (variables (components st self)) key of
             None \<Rightarrow> Inl KeyError
           | Some v \<Rightarrow>
               copy_to_parent
                 (st\<lparr>components := (components st)
                    (parent := (components st parent)
                       \<lparr>variables := AList.update key v (variables (components st parent))\<rparr>)\<rparr>)
                 self parent keys)"

text \<open>
  \<open>propagate_variables(keys=None)\<close>, one call per ancestor; the first argument is the
  recursion depth left. \<open>keys or self.variables.keys()\<close> takes the component's own keys
  also when the keys passed in are empty.
\<close>

fun propagate_variables :: "nat \<Rightarrow> state \<Rightarrow> cid \<Rightarrow> string list option \<Rightarrow> error + state" where
  "propagate_variables 0 st self keys_arg = Inl RecursionError"
| "propagate_variables (Suc depth) st self keys_arg =
     (case parent_component (components st self) of
        None \<Rightarrow> Inr st
      | Some parent \<Rightarrow>
          let keys = (case keys_arg of
                        None \<Rightarrow> map fst (variables (components st self))
                      | Some [] \<Rightarrow> map fst (variables (components st self))
                      | Some ks \<Rightarrow> ks)
          in case copy_to_parent st self parent keys of
               Inl e \<Rightarrow> Inl e
             | Inr st1 \<Rightarrow> propagate_variables depth st1 parent (Some keys))"

section \<open>The spec's wording, and example objects\<close>

text \<open>The scope pattern as the spec words it: every character is one of \<open>[A-Za-z0-9_-]\<close>.\<close>

definition scope_chars_allowed :: "string \<Rightarrow> bool" where
  "scope_chars_allowed s =
     list_all (\<lambda>c. c \<in> set ''abcdefghijklmnopqrstuvwxyzABCDEFGHIJKLMNOPQRSTUVWXYZ0123456789_-'') s"

text \<open>The class \<open>[\w\-]\<close> of the scope pattern, on every character of a string.\<close>

definition scope_class :: "string \<Rightarrow> bool" where
  "scope_class s = list_all (\<lambda>c. is_word_char c \<or> c = CHR ''-'') s"

text \<open>The names of all sockets of a component, over its three collections.\<close>

definition socket_names :: "state \<Rightarrow> cid \<Rightarrow> string list" where
  "socket_names st self =
     map (\<lambda>x. sock_name (sockets st x))
       (input_sockets (components st self) @ output_sockets (components st self)
        @ internal_sockets (components st self))"

text \<open>
  A state in which every component cell holds a component as its constructor leaves it,
  with the scope given, and no socket has been created yet.
\<close>

definition no_socket :: socket where
  "no_socket = \<lparr>sock_name = [], sock_component = 0, sock_type = [], sock_space = None,
                incoming_connections = [], outgoing_connections = []\<rparr>"

definition fresh_state :: "(cid \<Rightarrow> string) \<Rightarrow> state" where
  "fresh_state scopes =
     \<lparr>components = (\<lambda>c. init_fields (scopes c) None),
      sockets = (\<lambda>_. no_socket),
      next_socket = 0,
      uuid1 = (\<lambda>_. []),
      uuid_calls = 0\<rparr>"

text \<open>A component with one in-socket, whose space the build has resolved.\<close>

definition resolved_state :: state where
  "resolved_state =
     (fresh_state (\<lambda>_. []))
       \<lparr>components := (\<lambda>c. init_fields [] None)
          (0 := (init_fields ''c'' None)\<lparr>input_sockets := [0]\<rparr>),
        sockets := (\<lambda>_. no_socket)
          (0 := \<lparr>sock_name = ''x'', sock_component = 0, sock_type = ''in'',
                 sock_space = Some ''Float[4]'', incoming_connections = [],
                 outgoing_connections = []\<rparr>),
        next_socket := 1\<rparr>"

text \<open>A component with one exposed in-socket and one exposed out-socket.\<close>

definition wired_state :: state where
  "wired_state =
     \<lparr>components = (\<lambda>c. init_fields [] None)
        (0 := (init_fields ''p'' None)\<lparr>input_sockets := [0], output_sockets := [1]\<rparr>),
      sockets = (\<lambda>_. no_socket)
        (0 := \<lparr>sock_name = ''input'', sock_component = 0, sock_type = ''in'',
               sock_space = None, incoming_connections = [], outgoing_connections = []\<rparr>,
         1 := \<lparr>sock_name = ''output'', sock_component = 0, sock_type = ''out'',
               sock_space = None, incoming_connections = [], outgoing_connections = []\<rparr>),
      next_socket = 2,
      uuid1 = (\<lambda>_. []),
      uuid_calls = 0\<rparr>"

text \<open>
  The fields of a component that no socket operation touches, and a component with its
  global scope blanked (what \<open>propagate_scope\<close> leaves alone).
\<close>

definition outline ::
  "component \<Rightarrow> string \<times> string \<times> string \<times> cid option \<times> (string \<times> cid) list \<times> (string \<times> var) list" where
  "outline c = (scope c, global_scope c, name c, parent_component c, sub_components c, variables c)"

definition frame :: "state \<Rightarrow> cid \<Rightarrow> component" where
  "frame st c = (components st c)\<lparr>global_scope := []\<rparr>"

text \<open>The state after the two assignments of add_component.\<close>

definition attached :: "state \<Rightarrow> cid \<Rightarrow> cid \<Rightarrow> state" where
  "attached st self component =
     (let st1 = st\<lparr>components := (components st)
                    (component := (components st component)\<lparr>parent_component := Some self\<rparr>)\<rparr>
      in st1\<lparr>components := (components st1)
                    (self := (components st1 self)
                       \<lparr>sub_components :=
                          AList.update (name (components st1 component)) component
                            (sub_components (components st1 self))\<rparr>)\<rparr>)"

text \<open>
  Three freshly constructed components with the scopes \<open>p\<close>, \<open>c\<close> and \<open>g\<close> (every
  other component has the empty scope), and the states after \<open>c\<close> has been added to
  \<open>p\<close> and variables have been created.
\<close>

definition family :: state where
  "family = fresh_state ((\<lambda>_. [])(0 := ''p'', 1 := ''c'', 2 := ''g''))"

definition family1 :: state where
  "family1 = attached family 0 1
     \<lparr>components := (components (attached family 0 1))
        (1 := (components (attached family 0 1) 1)\<lparr>global_scope := ''p/c''\<rparr>)\<rparr>"

definition family2 :: state where
  "family2 = family1\<lparr>components := (components family1)
     (1 := (components family1 1)\<lparr>variables := [(''p/c/w'', 7)]\<rparr>)\<rparr>"

definition family3 :: state where
  "family3 = family1\<lparr>components := (components family1)
     (0 := (components family1 0)\<lparr>variables := [(''p/c/w'', 5)]\<rparr>)\<rparr>"

definition family4 :: state where
  "family4 = family3\<lparr>components := (components family3)
     (1 := (components family3 1)\<lparr>variables := [(''p/c/w'', 7)]\<rparr>)\<rparr>"

text \<open>
  Two states with the same objects (they may differ in the count of \<open>uuid1\<close> calls); a
  socket named \<open>n\<close> that was allocated between two states and is an internal socket of
  type \<open>"in"\<close>; and what holds between the state at the start of \<open>add_graph_fn\<close> and
  any state it runs through.
\<close>

definition same_objects :: "state \<Rightarrow> state \<Rightarrow> bool" where
  "same_objects st' st =
     (components st' = components st \<and> sockets st' = sockets st \<and> next_socket st' = next_socket st)"

definition auto_created :: "state \<Rightarrow> state \<Rightarrow> cid \<Rightarrow> string \<Rightarrow> bool" where
  "auto_created st0 st self n =
     (\<exists>x\<in>set (internal_sockets (components st self)).
        next_socket st0 \<le> x \<and> x < next_socket st
        \<and> sock_name (sockets st x) = n \<and> sock_type (sockets st x) = ''in'')"

definition creating :: "state \<Rightarrow> state \<Rightarrow> cid \<Rightarrow> string \<Rightarrow> bool" where
  "creating st0 st self n =
     (next_socket st0 \<le> next_socket st
      \<and> input_sockets (components st self) = input_sockets (components st0 self)
      \<and> output_sockets (components st self) = output_sockets (components st0 self)
      \<and> (n \<in> set (socket_names st self) \<longrightarrow> auto_created st0 st self n))"

text \<open>
  A keyword standing in a name as a delimited word: the text before it ends with a digit
  or an underscore, or a word boundary lies between that text and the keyword; and the
  same after it (\<open>delimiter_after\<close>). \<open>prev\<close> is the character before the string
  searched, \<open>None\<close> for a whole name.
\<close>

definition left_delimited :: "char option \<Rightarrow> string \<Rightarrow> char \<Rightarrow> bool" where
  "left_delimited prev pre c =
     ((pre \<noteq> [] \<and> (is_digit (last pre) \<or> last pre = CHR ''_''))
      \<or> word_boundary (if pre = [] then prev else Some (last pre)) (Some c))"

definition occurs_delimited :: "char option \<Rightarrow> string \<Rightarrow> string \<Rightarrow> bool" where
  "occurs_delimited prev kw s =
     (\<exists>pre post. s = pre @ kw @ post \<and> left_delimited prev pre (hd kw) \<and> delimiter_after post)"

definition delimited_word :: "string \<Rightarrow> string \<Rightarrow> bool" where
  "delimited_word kw nm = occurs_delimited None kw nm"

text \<open>A state of components with the empty scope, as \<open>Component()\<close> makes them.\<close>

definition blank_state :: state where
  "blank_state = fresh_state (\<lambda>c. [])"

section \<open>Trees of components and their scopes\<close>


definition children :: "state \<Rightarrow> cid \<Rightarrow> cid list" where
  "children st c = map snd (sub_components (components st c))"

inductive anc :: "(cid \<Rightarrow> cid option) \<Rightarrow> cid \<Rightarrow> cid \<Rightarrow> bool" for par where
  anc_self: "anc par c c"
| anc_up: "par c = Some p \<Longrightarrow> anc par a p \<Longrightarrow> anc par a c"

text \<open>
  The components below \<open>x\<close> form a tree of height less than \<open>d\<close>: the calls of
  \<open>propagate_scope\<close> nested from \<open>x\<close> stay within \<open>d\<close> levels.
\<close>

fun tree_below :: "(cid \<Rightarrow> cid list) \<Rightarrow> nat \<Rightarrow> cid \<Rightarrow> bool" where
  "tree_below chl 0 x = False"
| "tree_below chl (Suc d) x = (\<forall>c\<in>set (chl x). tree_below chl d c)"



text \<open>
  The state after the assignment at the head of \<open>propagate_scope\<close>.
\<close>

definition rescoped :: "state \<Rightarrow> cid \<Rightarrow> cid \<Rightarrow> state" where
  "rescoped st self sub_component =
     (if global_scope (components st self) \<noteq> [] then
           st\<lparr>components := (components st)
             (sub_component := (components st sub_component)
                \<lparr>global_scope :=
                   global_scope (components st self)
                   @ (if scope (components st sub_component) \<noteq> []
                      then ''/'' @ scope (components st sub_component) else [])\<rparr>)\<rparr>
         else st)"












section \<open>Construction: the scope assertion\<close>

text \<open>
  What the assertion of the constructor accepts: the strings of word characters and
  \<open>-\<close>, and each of them followed by one newline.
\<close>

lemma scope_pattern_matches_iff:
  "scope_pattern_matches s \<longleftrightarrow>
     scope_class s \<or> (\<exists>w. s = w @ [CHR 0x0A] \<and> scope_class w)"
proof (induction s)
  case Nil
  show ?case by (simp add: scope_class_def)
next
  case (Cons c cs)
  show ?case
  proof (cases "is_word_char c \<or> c = CHR ''-''")
    case True
    have nl: "c \<noteq> CHR 0x0A" using True by (auto simp: is_word_char_def)
    have "(\<exists>w. c # cs = w @ [CHR 0x0A] \<and> scope_class w)
          \<longleftrightarrow> (\<exists>w. cs = w @ [CHR 0x0A] \<and> scope_class w)"
    proof
      assume "\<exists>w. c # cs = w @ [CHR 0x0A] \<and> scope_class w"
      then obtain w where w: "c # cs = w @ [CHR 0x0A]" "scope_class w" by blast
      with nl obtain w' where "w = c # w'" by (cases w) auto
      with w show "\<exists>w. cs = w @ [CHR 0x0A] \<and> scope_class w"
        by (auto simp: scope_class_def)
    next
      assume "\<exists>w. cs = w @ [CHR 0x0A] \<and> scope_class w"
      then obtain w where "cs = w @ [CHR 0x0A]" "scope_class w" by blast
      then have "c # cs = (c # w) @ [CHR 0x0A] \<and> scope_class (c # w)"
        using True by (simp add: scope_class_def)
      then show "\<exists>w. c # cs = w @ [CHR 0x0A] \<and> scope_class w" by blast
    qed
    with True Cons nl show ?thesis by (auto simp: scope_class_def)
  next
    case False
    have "(\<exists>w. c # cs = w @ [CHR 0x0A] \<and> scope_class w) \<longleftrightarrow> (c = CHR 0x0A \<and> cs = [])"
    proof
      assume "\<exists>w. c # cs = w @ [CHR 0x0A] \<and> scope_class w"
      then obtain w where w: "c # cs = w @ [CHR 0x0A]" "scope_class w" by blast
      show "c = CHR 0x0A \<and> cs = []"
      proof (cases w)
        case Nil
        with w show ?thesis by simp
      next
        case (Cons a w')
        with w False show ?thesis by (auto simp: scope_class_def)
      qed
    next
      assume "c = CHR 0x0A \<and> cs = []"
      then have "c # cs = [] @ [CHR 0x0A] \<and> scope_class []"
        by (simp add: scope_class_def)
      then show "\<exists>w. c # cs = w @ [CHR 0x0A] \<and> scope_class w" by blast
    qed
    with False show ?thesis by (auto simp: scope_class_def)
  qed
qed

text \<open>
  Claim C9: the constructor accepts a scope exactly when it matches \<open>[A-Za-z0-9_-]*\<close>.
  The code departs from it: the scope \<open>"a\n"\<close> holds a newline, which is outside the set,
  and the constructor accepts it and returns the component.
\<close>

theorem scope_newline_accepted:
  "\<not> scope_chars_allowed [CHR ''a'', CHR 0x0A] \<and>
   Component_init [CHR ''a'', CHR 0x0A] None = Inr (init_fields [CHR ''a'', CHR 0x0A] None)"
  by (simp add: scope_chars_allowed_def Component_init_def is_word_char_def)

section \<open>Input completeness\<close>

lemma fold_reset:
  "fold (\<lambda>x flag. if bad x then False else flag) xs b = (b \<and> (\<forall>x\<in>set xs. \<not> bad x))"
  by (induction xs arbitrary: b) auto

lemma check_input_completeness_flag:
  "input_complete (components (check_input_completeness st c) c) =
     (input_complete (components st c) \<or>
      (\<forall>s\<in>set (input_sockets (components st c)). sock_space (sockets st s) \<noteq> None))"
  by (simp add: check_input_completeness_def Let_def fold_reset)

lemma check_input_completeness_other:
  "c' \<noteq> c \<Longrightarrow> components (check_input_completeness st c') c = components st c"
  by (simp add: check_input_completeness_def Let_def)

lemma check_input_completeness_mono:
  "input_complete (components st c) \<Longrightarrow> input_complete (components (check_input_completeness st c') c)"
  by (cases "c' = c") (simp_all add: check_input_completeness_flag check_input_completeness_other)

lemma check_sequence_mono:
  "input_complete (components st c) \<Longrightarrow>
   input_complete (components (fold (\<lambda>c' s. check_input_completeness s c') cs st) c)"
  by (induction cs arbitrary: st) (simp_all add: check_input_completeness_mono)

text \<open>
  Claim C4: the flag \<open>input_complete\<close> is monotonic. Once it is true, no sequence of
  \<open>check_input_completeness\<close> calls, on this or on other components, makes it false; and
  a call on a component whose flag is false sets it to true exactly when every socket in
  \<open>input_sockets\<close> holds a space.
\<close>

theorem input_complete_monotonic:
  "(input_complete (components st c) \<longrightarrow>
      input_complete (components (fold (\<lambda>c' s. check_input_completeness s c') cs st) c))
   \<and> (\<not> input_complete (components st c) \<longrightarrow>
        (input_complete (components (check_input_completeness st c) c) \<longleftrightarrow>
           (\<forall>s\<in>set (input_sockets (components st c)). sock_space (sockets st s) \<noteq> None)))"
  using check_sequence_mono [of st c cs] check_input_completeness_flag [of st c] by blast

theorem input_complete_monotonic_witness:
  "\<not> input_complete (components resolved_state 0)
   \<and> input_complete (components (check_input_completeness resolved_state 0) 0)
   \<and> input_complete (components
        (fold (\<lambda>c' s. check_input_completeness s c') [0, 1, 0]
           (check_input_completeness resolved_state 0)) 0)"
proof -
  have a: "\<not> input_complete (components resolved_state 0)"
    by (simp add: resolved_state_def init_fields_def)
  have b: "\<forall>s\<in>set (input_sockets (components resolved_state 0)).
             sock_space (sockets resolved_state s) \<noteq> None"
    by (simp add: resolved_state_def init_fields_def)
  have c: "input_complete (components (check_input_completeness resolved_state 0) 0)"
    using input_complete_monotonic [of resolved_state 0 "[]"] a b by blast
  show ?thesis
    using a b c
      input_complete_monotonic [of "check_input_completeness resolved_state 0" 0 "[0, 1, 0]"]
    by blast
qed

section \<open>Adding sockets\<close>

lemma connect_from_components [simp]: "components (connect_from st s x) = components st"
  by (simp add: connect_from_def Let_def)

lemma connect_from_name [simp]: "sock_name (sockets (connect_from st s x) y) = sock_name (sockets st y)"
  by (simp add: connect_from_def Let_def)

lemma connect_from_type [simp]: "sock_type (sockets (connect_from st s x) y) = sock_type (sockets st y)"
  by (simp add: connect_from_def Let_def)

lemma connect_from_component [simp]:
  "sock_component (sockets (connect_from st s x) y) = sock_component (sockets st y)"
  by (simp add: connect_from_def Let_def)

text \<open>
  Claim C8, as amended: \<open>add_socket\<close> raises an error when a socket of that name is
  already in one of the three collections of the component. Otherwise, when the direction is
  given or can be inferred from the name, one new socket is appended to the collection that
  its internal flag and direction select (internal sockets when internal; else the
  in-sockets for \<open>"in"\<close>, the out-sockets for any other type), and the other two
  collections are as before. When the direction is omitted and cannot be inferred, the call
  raises the error of the inference, whether the name is new or not.
\<close>

theorem add_socket_duplicate_or_appended:
  "(nm \<in> set (socket_names st self) \<longrightarrow>
      (\<exists>e. add_socket st self nm cv type_arg internal = Inl e))
   \<and> (nm \<notin> set (socket_names st self)
        \<and> (case type_arg of None \<Rightarrow> infer_socket_type nm | Some t \<Rightarrow> Some t) = Some ty \<longrightarrow>
        (\<exists>st'. add_socket st self nm cv type_arg internal = Inr st'
           \<and> sock_name (sockets st' (next_socket st)) = nm
           \<and> sock_type (sockets st' (next_socket st)) = ty
           \<and> sock_component (sockets st' (next_socket st)) = self
           \<and> (if internal then
                 internal_sockets (components st' self)
                   = internal_sockets (components st self) @ [next_socket st]
                 \<and> input_sockets (components st' self) = input_sockets (components st self)
                 \<and> output_sockets (components st' self) = output_sockets (components st self)
               else if ty = ''in'' then
                 input_sockets (components st' self)
                   = input_sockets (components st self) @ [next_socket st]
                 \<and> output_sockets (components st' self) = output_sockets (components st self)
                 \<and> internal_sockets (components st' self) = internal_sockets (components st self)
               else
                 output_sockets (components st' self)
                   = output_sockets (components st self) @ [next_socket st]
                 \<and> input_sockets (components st' self) = input_sockets (components st self)
                 \<and> internal_sockets (components st' self)
                     = internal_sockets (components st self))))
   \<and> ((case type_arg of None \<Rightarrow> infer_socket_type nm | Some t \<Rightarrow> Some t) = None \<longrightarrow>
        add_socket st self nm cv type_arg internal = Inl YARLError)"
proof (intro conjI impI)
  assume "(case type_arg of None \<Rightarrow> infer_socket_type nm | Some t \<Rightarrow> Some t) = None"
  then show "add_socket st self nm cv type_arg internal = Inl YARLError"
    by (simp add: add_socket_def Let_def)
next
  assume "nm \<in> set (socket_names st self)"
  then show "\<exists>e. add_socket st self nm cv type_arg internal = Inl e"
    by (auto simp: add_socket_def socket_names_def Let_def split: option.splits)
next
  assume h: "nm \<notin> set (socket_names st self)
     \<and> (case type_arg of None \<Rightarrow> infer_socket_type nm | Some t \<Rightarrow> Some t) = Some ty"
  then have n: "nm \<notin> (\<lambda>x. sock_name (sockets st x)) `
      (set (input_sockets (components st self)) \<union> set (output_sockets (components st self))
       \<union> set (internal_sockets (components st self)))"
    by (simp add: socket_names_def image_Un)
  from h have t: "(case type_arg of None \<Rightarrow> infer_socket_type nm | Some t \<Rightarrow> Some t) = Some ty"
    by simp
  show "\<exists>st'. add_socket st self nm cv type_arg internal = Inr st'
           \<and> sock_name (sockets st' (next_socket st)) = nm
           \<and> sock_type (sockets st' (next_socket st)) = ty
           \<and> sock_component (sockets st' (next_socket st)) = self
           \<and> (if internal then
                 internal_sockets (components st' self)
                   = internal_sockets (components st self) @ [next_socket st]
                 \<and> input_sockets (components st' self) = input_sockets (components st self)
                 \<and> output_sockets (components st' self) = output_sockets (components st self)
               else if ty = ''in'' then
                 input_sockets (components st' self)
                   = input_sockets (components st self) @ [next_socket st]
                 \<and> output_sockets (components st' self) = output_sockets (components st self)
                 \<and> internal_sockets (components st' self) = internal_sockets (components st self)
               else
                 output_sockets (components st' self)
                   = output_sockets (components st self) @ [next_socket st]
                 \<and> input_sockets (components st' self) = input_sockets (components st self)
                 \<and> internal_sockets (components st' self)
                     = internal_sockets (components st self))"
    using n t by (cases cv) (simp_all add: add_socket_def Let_def image_Un)
qed

theorem add_socket_duplicate_or_appended_witness:
  "(\<exists>st'. add_socket (fresh_state (\<lambda>_. [])) 0 ''records'' None (Some ''in'') False = Inr st'
      \<and> input_sockets (components st' 0) = [0]
      \<and> output_sockets (components st' 0) = []
      \<and> internal_sockets (components st' 0) = []
      \<and> (\<exists>e. add_socket st' 0 ''records'' None (Some ''out'') True = Inl e))"
proof -
  let ?st = "fresh_state (\<lambda>_. [])"
  have n: "''records'' \<notin> set (socket_names ?st 0)"
    by (simp add: socket_names_def fresh_state_def init_fields_def)
  from add_socket_duplicate_or_appended
    [where nm = "''records''" and st = ?st and self = 0 and cv = None
       and type_arg = "Some ''in''" and ty = "''in''" and internal = False] n
  obtain st' where s: "add_socket ?st 0 ''records'' None (Some ''in'') False = Inr st'"
    "sock_name (sockets st' (next_socket ?st)) = ''records''"
    "input_sockets (components st' 0) = input_sockets (components ?st 0) @ [next_socket ?st]"
    "output_sockets (components st' 0) = output_sockets (components ?st 0)"
    "internal_sockets (components st' 0) = internal_sockets (components ?st 0)"
    by auto
  have m: "''records'' \<in> set (socket_names st' 0)"
    using s by (simp add: socket_names_def)
  have "\<exists>e. add_socket st' 0 ''records'' None (Some ''out'') True = Inl e"
    using add_socket_duplicate_or_appended
      [where nm = "''records''" and st = st' and self = 0 and cv = None
         and type_arg = "Some ''out''" and internal = True] m
    by blast
  with s show ?thesis by (simp add: fresh_state_def init_fields_def)
qed

text \<open>
  Claim C8 as stated fails: no socket of the component is named \<open>foo\<close>, the direction is
  omitted and the name gives none, and \<open>add_socket\<close> raises the error of the inference
  instead of appending a socket.
\<close>

theorem add_socket_new_name_raises:
  "''foo'' \<notin> set (socket_names blank_state 0)
   \<and> add_socket blank_state 0 ''foo'' None None False = Inl YARLError"
  by (simp add: socket_names_def blank_state_def fresh_state_def init_fields_def
      add_socket_def Let_def infer_socket_type_def match_at_def keyword_at_def word_boundary_def
      is_word_char_def is_digit_def delimiter_after_def)

section \<open>Connecting sockets and spaces\<close>

lemmas lookup_defs = get_socket_def resolve_socket_def get_socket_by_name_def
lemmas connect_defs = connect_def disconnect_def connect_disconnect_def connect_socket_objs_def
  connect_to_def connect_from_def disconnect_to_def disconnect_from_def

text \<open>
  Claim C1: \<open>connect(A, B)\<close> on two sockets of the same component always raises an error
  and records no connection. The code departs from it: the test "both sockets belong to the
  same Component" stands in the \<open>disconnect\<close> branch. Connecting the out-socket of a
  component to its own in-socket returns, with the connection recorded on both sockets; it
  is disconnecting them that raises.
\<close>

theorem connect_same_component_recorded:
  "sock_component (sockets wired_state 0) = sock_component (sockets wired_state 1)
   \<and> (\<exists>st'. connect wired_state 0 (SStr ''output'') (SStr ''input'') = Inr st'
         \<and> outgoing_connections (sockets st' 1) = [ToSocket 0]
         \<and> incoming_connections (sockets st' 0) = [ToSocket 1])
   \<and> disconnect wired_state 0 (SStr ''output'') (SStr ''input'') = Inl YARLError"
  by (simp add: wired_state_def init_fields_def lookup_defs connect_defs Let_def)

text \<open>Looking a socket up without the creation flag leaves both stores as they are.\<close>

lemma get_socket_no_create_state:
  "get_socket st self sp type_arg False = Inr (st1, x) \<Longrightarrow> sockets st1 = sockets st \<and> components st1 = components st"
  by (auto simp: get_socket_def resolve_socket_def Let_def split: spec.splits option.splits if_splits sum.splits prod.splits comp_ref.splits)

text \<open>
  Claim C7: \<open>connect(space, socket)\<close> requires \<open>socket.type == "in"\<close>, and
  \<open>connect(socket, space)\<close> requires \<open>socket.type == "out"\<close>. When the first argument is
  a space or a constant-value op, \<open>connect\<close> returns only if the second resolves to a
  socket of type \<open>"in"\<close>; when only the second is a space, it returns only if the first
  resolves to a socket of type \<open>"out"\<close>. In every other case it raises.
\<close>

theorem connect_space_direction:
  "((from_spec = SSpace sp \<or> from_spec = SDataOp v)
      \<and> connect st self from_spec to_spec = Inr st' \<longrightarrow>
      (\<exists>st1 x. get_socket st self to_spec None False = Inr (st1, x)
         \<and> sock_type (sockets st x) = ''in''))
   \<and> ((\<forall>sp'. from_spec \<noteq> SSpace sp') \<and> (\<forall>v'. from_spec \<noteq> SDataOp v')
        \<and> to_spec = SSpace sp \<and> connect st self from_spec to_spec = Inr st' \<longrightarrow>
      (\<exists>st1 x. get_socket st self from_spec None False = Inr (st1, x)
         \<and> sock_type (sockets st x) = ''out''))"
proof (intro conjI impI)
  assume h: "(from_spec = SSpace sp \<or> from_spec = SDataOp v)
      \<and> connect st self from_spec to_spec = Inr st'"
  then obtain st1 x where g: "get_socket st self to_spec None False = Inr (st1, x)"
    and t: "sock_type (sockets st1 x) = ''in''"
    by (auto simp: connect_def connect_disconnect_def split: sum.splits if_splits)
  from get_socket_no_create_state [OF g] t g
  show "\<exists>st1 x. get_socket st self to_spec None False = Inr (st1, x)
         \<and> sock_type (sockets st x) = ''in''" by auto
next
  assume h: "(\<forall>sp'. from_spec \<noteq> SSpace sp') \<and> (\<forall>v'. from_spec \<noteq> SDataOp v')
        \<and> to_spec = SSpace sp \<and> connect st self from_spec to_spec = Inr st'"
  then have "\<exists>st1 x. get_socket st self from_spec None False = Inr (st1, x) \<and> sock_type (sockets st1 x) = ''out''"
    by (cases from_spec) (auto simp: connect_def connect_disconnect_def split: sum.splits if_splits)
  then obtain st1 x where g: "get_socket st self from_spec None False = Inr (st1, x)"
    and t: "sock_type (sockets st1 x) = ''out''" by blast
  from get_socket_no_create_state [OF g] t g
  show "\<exists>st1 x. get_socket st self from_spec None False = Inr (st1, x)
         \<and> sock_type (sockets st x) = ''out''" by auto
qed

lemma connect_space_examples:
  "(\<exists>st'. connect wired_state 0 (SSpace ''Float[4]'') (SStr ''input'') = Inr st'
        \<and> incoming_connections (sockets st' 0) = [ToSpace ''Float[4]''])
   \<and> connect wired_state 0 (SSpace ''Float[4]'') (SStr ''output'') = Inl AssertionError
   \<and> connect wired_state 0 (SDataOp (SingleDataOp (Num 1))) (SStr ''output'') = Inl AssertionError
   \<and> connect wired_state 0 (SConst 1) (SStr ''input'') = Inl YARLError
   \<and> connect wired_state 0 (SStr ''input'') (SSpace ''Float[4]'') = Inl AssertionError
   \<and> (\<exists>st'. connect wired_state 0 (SStr ''output'') (SSpace ''Float[4]'') = Inr st'
        \<and> outgoing_connections (sockets st' 1) = [ToSpace ''Float[4]''])"
  by (simp add: wired_state_def init_fields_def lookup_defs connect_defs Let_def)

theorem connect_space_direction_witness:
  "(\<exists>st1 x. get_socket wired_state 0 (SStr ''input'') None False = Inr (st1, x)
       \<and> sock_type (sockets wired_state x) = ''in'')
   \<and> (\<exists>st1 x. get_socket wired_state 0 (SStr ''output'') None False = Inr (st1, x)
       \<and> sock_type (sockets wired_state x) = ''out'')"
proof -
  obtain st' where a: "connect wired_state 0 (SSpace ''Float[4]'') (SStr ''input'') = Inr st'"
    using connect_space_examples by blast
  obtain st'' where b: "connect wired_state 0 (SStr ''output'') (SSpace ''Float[4]'') = Inr st''"
    using connect_space_examples by blast
  show ?thesis
    using connect_space_direction
        [where from_spec = "SSpace ''Float[4]''" and sp = "''Float[4]''" and st = wired_state
           and self = 0 and to_spec = "SStr ''input''" and st' = st'] a
      connect_space_direction
        [where from_spec = "SStr ''output''" and sp = "''Float[4]''" and st = wired_state
           and self = 0 and to_spec = "SSpace ''Float[4]''" and st' = st''] b
    by simp
qed

section \<open>What the operations leave alone\<close>

lemma fold_sum_Inl:
  "fold (\<lambda>x r. case r of Inl e \<Rightarrow> Inl e | Inr s \<Rightarrow> f s x) xs (Inl e) = Inl e"
  by (induction xs) auto

lemma fold_sum_invariant:
  assumes "fold (\<lambda>x r. case r of Inl e \<Rightarrow> Inl e | Inr s \<Rightarrow> f s x) xs (Inr s0) = Inr s'"
    and "I s0"
    and "\<And>s x s''. x \<in> set xs \<Longrightarrow> I s \<Longrightarrow> f s x = Inr s'' \<Longrightarrow> I s''"
  shows "I s'"
  using assms
proof (induction xs arbitrary: s0)
  case Nil
  then show ?case by simp
next
  case (Cons x xs)
  show ?case
  proof (cases "f s0 x")
    case (Inl e)
    with Cons.prems(1) show ?thesis by (simp add: fold_sum_Inl)
  next
    case (Inr s1)
    with Cons.prems(1) have "fold (\<lambda>x r. case r of Inl e \<Rightarrow> Inl e | Inr s \<Rightarrow> f s x) xs (Inr s1) = Inr s'"
      by simp
    moreover have "I s1" using Cons.prems(2,3) Inr by auto
    ultimately show ?thesis using Cons.IH Cons.prems(3) by auto
  qed
qed

lemma fold_sum_invariant_pairs:
  assumes "fold (\<lambda>(a, b) r. case r of Inl e \<Rightarrow> Inl e | Inr s \<Rightarrow> f s a b) xs (Inr s0) = Inr s'"
    and "I s0"
    and "\<And>s a b s''. (a, b) \<in> set xs \<Longrightarrow> I s \<Longrightarrow> f s a b = Inr s'' \<Longrightarrow> I s''"
  shows "I s'"
proof -
  have eq: "(\<lambda>(a, b) r. case r of Inl e \<Rightarrow> Inl e | Inr s \<Rightarrow> f s a b)
            = (\<lambda>x r. case r of Inl e \<Rightarrow> Inl e | Inr s \<Rightarrow> f s (fst x) (snd x))"
    by (auto simp: fun_eq_iff split: sum.splits)
  have "fold (\<lambda>x r. case r of Inl e \<Rightarrow> Inl e | Inr s \<Rightarrow> f s (fst x) (snd x)) xs (Inr s0) = Inr s'"
    using assms(1) unfolding eq .
  then show ?thesis
  proof (rule fold_sum_invariant [where I = I])
    show "I s0" by (rule assms(2))
  next
    fix s x s''
    assume "x \<in> set xs" "I s" "f s (fst x) (snd x) = Inr s''"
    then show "I s''" using assms(3) [of "fst x" "snd x" s s''] by simp
  qed
qed

lemma connect_to_components [simp]: "components (connect_to st s x) = components st"
  by (simp add: connect_to_def Let_def)

lemma disconnect_to_components [simp]: "components (disconnect_to st s x) = components st"
  by (simp add: disconnect_to_def Let_def)

lemma disconnect_from_components [simp]: "components (disconnect_from st s x) = components st"
  by (simp add: disconnect_from_def Let_def)

lemma add_socket_outline:
  "add_socket st self nm cv ty internal = Inr st' \<Longrightarrow>
   outline (components st' c) = outline (components st c)"
  by (auto simp: add_socket_def Let_def outline_def split: option.splits if_splits)

lemma get_socket_outline:
  "get_socket st self sp ty cr = Inr (st', x) \<Longrightarrow>
   outline (components st' c) = outline (components st c)"
  by (auto simp: get_socket_def resolve_socket_def Let_def
      split: spec.splits option.splits if_splits sum.splits prod.splits comp_ref.splits pair_item.splits
      dest!: add_socket_outline [where c = c])

lemma connect_socket_objs_components:
  "connect_socket_objs st a b d = Inr st' \<Longrightarrow> components st' = components st"
  by (auto simp: connect_socket_objs_def split: if_splits)

lemma connect_disconnect_components:
  assumes "connect_disconnect st self f t d = Inr st'"
  shows "components st' = components st"
proof -
  have loop: "\<And>ps s0 s'. fold (\<lambda>(out_sock, in_sock) r. case r of Inl e \<Rightarrow> Inl e
                 | Inr s \<Rightarrow> connect_socket_objs s out_sock in_sock False) ps (Inr s0) = Inr s'
               \<Longrightarrow> components s' = components s0"
  proof -
    fix ps :: "(sid \<times> sid) list" and s0 s'
    assume a: "fold (\<lambda>(out_sock, in_sock) r. case r of Inl e \<Rightarrow> Inl e
                 | Inr s \<Rightarrow> connect_socket_objs s out_sock in_sock False) ps (Inr s0) = Inr s'"
    show "components s' = components s0"
      by (rule fold_sum_invariant_pairs [OF a, where I = "\<lambda>s. components s = components s0"])
         (auto dest: connect_socket_objs_components)
  qed
  show ?thesis
    using assms
    by (auto simp: connect_disconnect_def Let_def
        split: option.splits sum.splits prod.splits if_splits spec.splits
        dest!: get_socket_no_create_state connect_socket_objs_components loop)
qed

lemma expose_socket_outline:
  assumes "expose_socket st self component item other = Inr st'"
  shows "outline (components st' c) = outline (components st c)"
  using assms
  by (auto simp: expose_socket_def connect_def
      split: sum.splits prod.splits other_sock.splits option.splits if_splits
      dest!: get_socket_no_create_state connect_disconnect_components add_socket_outline [where c = c])

lemma expose_all_outline:
  assumes "fold (\<lambda>(sub_component_sock, other) r.
                   case r of Inl e \<Rightarrow> Inl e
                   | Inr s \<Rightarrow> expose_socket s self component sub_component_sock other)
             specs (Inr s0) = Inr s'"
  shows "outline (components s' c) = outline (components s0 c)"
  by (rule fold_sum_invariant_pairs
        [OF assms, where I = "\<lambda>s. outline (components s c) = outline (components s0 c)"])
     (auto dest: expose_socket_outline [where c = c])

lemma propagate_scope_frame:
  "propagate_scope depth st self sub = Inr st' \<Longrightarrow> frame st' = frame st"
proof (induction depth arbitrary: st self sub st')
  case 0
  then show ?case by simp
next
  case (Suc depth)
  let ?st1 = "(if global_scope (components st self) \<noteq> [] then
           st\<lparr>components := (components st)
             (sub := (components st sub)
                \<lparr>global_scope :=
                   global_scope (components st self)
                   @ (if scope (components st sub) \<noteq> []
                      then ''/'' @ scope (components st sub) else [])\<rparr>)\<rparr>
         else st)"
  have f1: "frame ?st1 = frame st"
    by (auto simp: frame_def fun_eq_iff)
  from Suc.prems have "fold (\<lambda>sc r. case r of Inl e \<Rightarrow> Inl e
                       | Inr s \<Rightarrow> propagate_scope depth s sub sc)
           (map snd (sub_components (components ?st1 sub))) (Inr ?st1) = Inr st'"
    by (simp add: Let_def)
  then have "frame st' = frame ?st1"
    by (rule fold_sum_invariant [where I = "\<lambda>s. frame s = frame ?st1"])
       (auto dest: Suc.IH)
  with f1 show ?case by simp
qed

lemma frame_fields:
  assumes "frame st' = frame st"
  shows "parent_component (components st' c) = parent_component (components st c)"
    and "sub_components (components st' c) = sub_components (components st c)"
    and "name (components st' c) = name (components st c)"
    and "scope (components st' c) = scope (components st c)"
    and "variables (components st' c) = variables (components st c)"
proof -
  from assms have e: "(components st' c)\<lparr>global_scope := []\<rparr> = (components st c)\<lparr>global_scope := []\<rparr>"
    by (simp add: frame_def fun_eq_iff)
  from arg_cong [OF e, of parent_component]
  show "parent_component (components st' c) = parent_component (components st c)" by simp
  from arg_cong [OF e, of sub_components]
  show "sub_components (components st' c) = sub_components (components st c)" by simp
  from arg_cong [OF e, of name]
  show "name (components st' c) = name (components st c)" by simp
  from arg_cong [OF e, of scope]
  show "scope (components st' c) = scope (components st c)" by simp
  from arg_cong [OF e, of variables]
  show "variables (components st' c) = variables (components st c)" by simp
qed

lemma outline_fields:
  assumes "outline c' = outline c"
  shows "parent_component c' = parent_component c"
    and "sub_components c' = sub_components c"
    and "name c' = name c" and "scope c' = scope c"
    and "global_scope c' = global_scope c" and "variables c' = variables c"
  using assms by (simp_all add: outline_def)

section \<open>Attaching sub-components\<close>

lemma add_component_Inr:
  assumes "add_component depth st self component conns = Inr st'"
  shows "name (components st component) \<notin> fst ` set (sub_components (components st self))"
    and "parent_component (components st component) = None"
    and "\<exists>st3. propagate_scope depth (attached st self component) self component = Inr st3
           \<and> (\<forall>c. outline (components st' c) = outline (components st3 c))"
proof -
  from assms show n: "name (components st component) \<notin> fst ` set (sub_components (components st self))"
    by (auto simp: add_component_def split: if_splits)
  from assms show p: "parent_component (components st component) = None"
    by (auto simp: add_component_def split: if_splits)
  from assms n p obtain st3 where
    a: "propagate_scope depth (attached st self component) self component = Inr st3"
    and b: "fold (\<lambda>(sub_component_sock, other) r.
                       case r of
                         Inl e \<Rightarrow> Inl e
                       | Inr s \<Rightarrow> expose_socket s self component sub_component_sock other)
                 (connect_spec_of st3 component conns)
                 (Inr st3) = Inr st'"
    by (auto simp: add_component_def attached_def Let_def split: sum.splits)
  from expose_all_outline [OF b] a
  show "\<exists>st3. propagate_scope depth (attached st self component) self component = Inr st3
           \<and> (\<forall>c. outline (components st' c) = outline (components st3 c))" by blast
qed

lemma attached_parent:
  "parent_component (components (attached st self component) component) = Some self"
  by (simp add: attached_def Let_def)

lemma attached_sub_components:
  "sub_components (components (attached st self component) self)
     = AList.update (name (components st component)) component (sub_components (components st self))"
  by (simp add: attached_def Let_def)

lemma family_fields:
  "components family 0 = init_fields ''p'' None"
  "components family 1 = init_fields ''c'' None"
  "components family (Suc 0) = init_fields ''c'' None"
  "components family 2 = init_fields ''g'' None"
  by (simp_all add: family_def fresh_state_def)

lemma propagate_family: "propagate_scope 2 (attached family 0 1) 0 1 = Inr family1"
  by (simp add: eval_nat_numeral family1_def attached_def family_fields init_fields_def Let_def)

lemma family_add_child: "add_component 2 family 0 1 None = Inr family1"
proof -
  have "add_component 2 family 0 1 None =
        (case propagate_scope 2 (attached family 0 1) 0 1 of Inl e \<Rightarrow> Inl e
         | Inr st3 \<Rightarrow> Inr st3)"
    by (simp add: add_component_def attached_def Let_def connect_spec_of_def family_fields
        init_fields_def split: sum.splits)
  then show ?thesis using propagate_family by simp
qed

lemma family1_fields:
  "components family1 0 = (init_fields ''p'' None)\<lparr>sub_components := [(''c'', 1)]\<rparr>"
  "components family1 (Suc 0)
     = (init_fields ''c'' None)\<lparr>parent_component := Some 0, global_scope := ''p/c''\<rparr>"
  "components family1 2 = init_fields ''g'' None"
  by (simp_all add: family1_def attached_def family_fields init_fields_def Let_def)

text \<open>
  Claim C5: \<open>add_component\<close> fails when the parent already has a sub-component under the
  child's name, and fails when the child already has a parent. It returns only otherwise,
  and then the child's \<open>parent_component\<close> is the parent and the parent's
  \<open>sub_components\<close> holds the child under its name.
\<close>

theorem add_component_checks:
  "(name (components st component) \<in> fst ` set (sub_components (components st self)) \<longrightarrow>
      add_component depth st self component conns = Inl YARLError)
   \<and> (parent_component (components st component) \<noteq> None \<longrightarrow>
      add_component depth st self component conns = Inl YARLError)
   \<and> (add_component depth st self component conns = Inr st' \<longrightarrow>
        name (components st component) \<notin> fst ` set (sub_components (components st self))
        \<and> parent_component (components st component) = None
        \<and> parent_component (components st' component) = Some self
        \<and> map_of (sub_components (components st' self)) (name (components st component))
            = Some component)"
proof (intro conjI impI)
  assume "name (components st component) \<in> fst ` set (sub_components (components st self))"
  then show "add_component depth st self component conns = Inl YARLError"
    by (simp add: add_component_def)
next
  assume "parent_component (components st component) \<noteq> None"
  then show "add_component depth st self component conns = Inl YARLError"
    by (simp add: add_component_def)
next
  assume a: "add_component depth st self component conns = Inr st'"
  from add_component_Inr [OF a] obtain st3 where
    n: "name (components st component) \<notin> fst ` set (sub_components (components st self))"
    and p: "parent_component (components st component) = None"
    and s: "propagate_scope depth (attached st self component) self component = Inr st3"
    and o: "\<And>c. outline (components st' c) = outline (components st3 c)"
    by blast
  from n show "name (components st component) \<notin> fst ` set (sub_components (components st self))" .
  from p show "parent_component (components st component) = None" .
  note f = frame_fields [OF propagate_scope_frame [OF s]]
  show "parent_component (components st' component) = Some self"
    using outline_fields(1) [OF o] f(1) attached_parent by simp
  show "map_of (sub_components (components st' self)) (name (components st component)) = Some component"
    using outline_fields(2) [OF o] f(2) attached_sub_components by (simp add: update_conv)
qed

theorem add_component_checks_witness:
  "add_component 2 family 0 1 None = Inr family1
   \<and> parent_component (components family1 1) = Some 0
   \<and> map_of (sub_components (components family1 0)) ''c'' = Some 1
   \<and> add_component 2 family1 2 1 None = Inl YARLError
   \<and> add_component 2 family1 0 1 None = Inl YARLError"
proof -
  note t1 = add_component_checks
    [where st = family and component = 1 and self = 0 and depth = 2 and conns = None
       and st' = family1]
  note t2 = add_component_checks
    [where st = family1 and component = 1 and self = 2 and depth = 2 and conns = None
       and st' = family1]
  note t3 = add_component_checks
    [where st = family1 and component = 1 and self = 0 and depth = 2 and conns = None
       and st' = family1]
  have n: "name (components family 1) = ''c''"
    by (simp add: family_fields init_fields_def)
  have b1: "parent_component (components family1 1) = Some 0"
    using t1 family_add_child by blast
  have "map_of (sub_components (components family1 0)) (name (components family 1)) = Some 1"
    using t1 family_add_child by blast
  then have b2: "map_of (sub_components (components family1 0)) ''c'' = Some 1"
    unfolding n .
  have "parent_component (components family1 1) \<noteq> None"
    unfolding b1 by simp
  then have c: "add_component 2 family1 2 1 None = Inl YARLError"
    using t2 by blast
  have "name (components family1 1) \<in> fst ` set (sub_components (components family1 0))"
    by (simp add: family1_fields init_fields_def)
  then have d: "add_component 2 family1 0 1 None = Inl YARLError"
    using t3 by blast
  from family_add_child b1 b2 c d show ?thesis by blast
qed

section \<open>Creating and propagating variables\<close>

lemma get_variable_child:
  "get_variable family1 1 ''w'' (Some []) None None 7 = Inr (family2, 7)"
  by (simp add: get_variable_def family2_def family1_fields init_fields_def Let_def)

lemma get_variable_parent:
  "get_variable family1 0 ''c/w'' (Some []) None None 5 = Inr (family3, 5)"
  by (simp add: get_variable_def family3_def family1_fields init_fields_def Let_def)

lemma get_variable_child_again:
  "get_variable family3 1 ''w'' (Some []) None None 7 = Inr (family4, 7)"
  by (simp add: get_variable_def family4_def family3_def family1_fields init_fields_def Let_def)

lemma family_registries:
  "variables (components family2 1) = [(''p/c/w'', 7)]"
  "variables (components family2 0) = []"
  "variables (components family4 1) = [(''p/c/w'', 7)]"
  "variables (components family4 0) = [(''p/c/w'', 5)]"
  by (simp_all add: family2_def family4_def family3_def family1_fields init_fields_def)

lemma propagate_duplicate: "propagate_variables 2 family4 1 None = Inl AssertionError"
  by (simp add: eval_nat_numeral family4_def family3_def family1_fields init_fields_def Let_def)

text \<open>
  Claim C3: creating a variable registers it under the fully scoped key in the component's
  registry, propagates it into every ancestor's registry at once, and fails when the key is
  already in a registry of the ancestor chain. The code departs from it. After
  \<open>c.get_variable("w")\<close> on the child \<open>c\<close> of \<open>p\<close>, the key \<open>p/c/w\<close> is in the
  registry of \<open>c\<close> and the registry of \<open>p\<close> is still empty. And when \<open>p\<close> already
  holds a variable under \<open>p/c/w\<close>, \<open>c.get_variable("w")\<close> returns all the same; the
  duplicate is only met by a later \<open>propagate_variables\<close>, whose assertion fails.
\<close>

theorem get_variable_not_propagated:
  "add_component 2 family 0 1 None = Inr family1
   \<and> get_variable family1 1 ''w'' (Some []) None None 7 = Inr (family2, 7)
   \<and> variables (components family2 1) = [(''p/c/w'', 7)]
   \<and> variables (components family2 0) = []
   \<and> get_variable family1 0 ''c/w'' (Some []) None None 5 = Inr (family3, 5)
   \<and> get_variable family3 1 ''w'' (Some []) None None 7 = Inr (family4, 7)
   \<and> variables (components family4 0) = [(''p/c/w'', 5)]
   \<and> variables (components family4 1) = [(''p/c/w'', 7)]
   \<and> propagate_variables 2 family4 1 None = Inl AssertionError"
  using family_add_child get_variable_child get_variable_parent get_variable_child_again
    family_registries propagate_duplicate by simp

section \<open>Operation bindings create internal in-sockets\<close>

lemma find_Some_named:
  "find (\<lambda>x. sock_name (sockets st x) = n) xs = Some x \<Longrightarrow> n \<in> (\<lambda>x. sock_name (sockets st x)) ` set xs"
  by (auto simp: find_Some_iff)

lemma get_socket_by_name_Some:
  "get_socket_by_name st self n None = Some x \<Longrightarrow> n \<in> set (socket_names st self)"
  by (auto simp: get_socket_by_name_def socket_names_def Let_def
      split: option.splits dest!: find_Some_named)

lemma get_socket_create:
  assumes "get_socket st self sp None True = Inr (st', x)"
  shows "(same_objects st' st \<and> (\<forall>n. sp = SStr n \<longrightarrow> n \<in> set (socket_names st self)))
       \<or> (\<exists>st1 nm cv. same_objects st1 st
             \<and> add_socket st1 self nm cv (Some ''in'') True = Inr st'
             \<and> (\<forall>n. sp = SStr n \<longrightarrow> nm = n))"
proof (cases sp)
  case (SStr n)
  show ?thesis
  proof (cases "get_socket_by_name st self n None")
    case None
    with assms SStr have "add_socket st self n None (Some ''in'') True = Inr st'"
      by (auto simp: get_socket_def resolve_socket_def split: sum.splits option.splits)
    then show ?thesis using SStr by (auto simp: same_objects_def)
  next
    case (Some y)
    with assms SStr have "st' = st"
      by (auto simp: get_socket_def resolve_socket_def)
    with get_socket_by_name_Some [OF Some] SStr show ?thesis
      by (auto simp: same_objects_def)
  qed
next
  case (SConst k)
  with assms have "add_socket (st\<lparr>uuid_calls := Suc (uuid_calls st)\<rparr>) self
       (name (components st self) @ ''-'' @ uuid1 st (uuid_calls st))
       (Some (SingleDataOp (Num k))) (Some ''in'') True = Inr st'"
    by (auto simp: get_socket_def resolve_socket_def split: sum.splits option.splits)
  moreover have "same_objects (st\<lparr>uuid_calls := Suc (uuid_calls st)\<rparr>) st"
    by (simp add: same_objects_def)
  ultimately show ?thesis using SConst by blast
next
  case (SPair cref item)
  show ?thesis
  proof (cases "\<exists>nm. add_socket st self nm None (Some ''in'') True = Inr st'")
    case True
    then show ?thesis using SPair by (auto simp: same_objects_def)
  next
    case False
    with assms SPair have "st' = st"
      by (auto simp: get_socket_def resolve_socket_def
          split: sum.splits option.splits pair_item.splits comp_ref.splits if_splits)
    then show ?thesis using SPair by (simp add: same_objects_def)
  qed
qed (use assms in \<open>auto simp: get_socket_def resolve_socket_def same_objects_def
       split: sum.splits option.splits if_splits\<close>)

lemma connect_from_next_socket [simp]: "next_socket (connect_from st s x) = next_socket st"
  by (simp add: connect_from_def Let_def)

lemma connect_to_next_socket [simp]: "next_socket (connect_to st s x) = next_socket st"
  by (simp add: connect_to_def Let_def)

lemma connect_to_name [simp]: "sock_name (sockets (connect_to st s x) y) = sock_name (sockets st y)"
  by (simp add: connect_to_def Let_def)

lemma connect_to_type [simp]: "sock_type (sockets (connect_to st s x) y) = sock_type (sockets st y)"
  by (simp add: connect_to_def Let_def)

lemma add_socket_internal_effect:
  assumes "add_socket st self nm cv (Some ''in'') True = Inr st'"
  shows "next_socket st' = Suc (next_socket st)"
    and "internal_sockets (components st' self) = internal_sockets (components st self) @ [next_socket st]"
    and "input_sockets (components st' self) = input_sockets (components st self)"
    and "output_sockets (components st' self) = output_sockets (components st self)"
    and "sock_name (sockets st' y) = (if y = next_socket st then nm else sock_name (sockets st y))"
    and "sock_type (sockets st' y) = (if y = next_socket st then ''in'' else sock_type (sockets st y))"
  using assms
  by (auto simp: add_socket_def Let_def split: if_splits option.splits)

lemma auto_created_named:
  "auto_created st0 st self n \<Longrightarrow> n \<in> set (socket_names st self)"
  by (auto simp: auto_created_def socket_names_def)

lemma same_objects_names: "same_objects st' st \<Longrightarrow> socket_names st' self = socket_names st self"
  by (simp add: same_objects_def socket_names_def)

lemma same_objects_creating: "same_objects st' st \<Longrightarrow> creating st0 st' self n = creating st0 st self n"
  by (simp add: same_objects_def creating_def socket_names_def auto_created_def)

lemma add_socket_creating:
  assumes a: "add_socket st self nm cv (Some ''in'') True = Inr st'"
    and c: "creating st0 st self n"
  shows "creating st0 st' self n" and "nm \<in> set (socket_names st' self)"
    and "n \<in> set (socket_names st self) \<Longrightarrow> n \<in> set (socket_names st' self)"
proof -
  note e = add_socket_internal_effect [OF a]
  have names: "set (socket_names st' self) \<subseteq> insert nm (set (socket_names st self))"
    by (auto simp: socket_names_def e)
  show nm: "nm \<in> set (socket_names st' self)"
    by (simp add: socket_names_def e)
  have keep: "auto_created st0 st' self n" if "auto_created st0 st self n"
  proof -
    from that obtain x where x: "x \<in> set (internal_sockets (components st self))"
      "next_socket st0 \<le> x" "x < next_socket st"
      "sock_name (sockets st x) = n" "sock_type (sockets st x) = ''in''"
      by (auto simp: auto_created_def)
    then have "x \<in> set (internal_sockets (components st' self))"
      "x < next_socket st'" "sock_name (sockets st' x) = n" "sock_type (sockets st' x) = ''in''"
      by (simp_all add: e)
    with x(2) show ?thesis unfolding auto_created_def by blast
  qed
  have new: "auto_created st0 st' self n" if "n = nm"
  proof -
    have "next_socket st \<in> set (internal_sockets (components st' self))"
      "next_socket st < next_socket st'" "sock_name (sockets st' (next_socket st)) = n"
      "sock_type (sockets st' (next_socket st)) = ''in''"
      using that by (simp_all add: e)
    moreover have "next_socket st0 \<le> next_socket st" using c by (simp add: creating_def)
    ultimately show ?thesis unfolding auto_created_def by blast
  qed
  have "auto_created st0 st' self n" if "n \<in> set (socket_names st' self)"
  proof -
    from that names have "n = nm \<or> n \<in> set (socket_names st self)" by auto
    then show ?thesis using new keep c by (auto simp: creating_def)
  qed
  then show "creating st0 st' self n"
    using c by (simp add: creating_def e)
  show "n \<in> set (socket_names st' self)" if "n \<in> set (socket_names st self)"
    using that c keep by (auto simp: creating_def dest: auto_created_named)
qed

lemma get_socket_creating:
  assumes g: "get_socket st self sp None True = Inr (st', x)"
    and c: "creating st0 st self n"
  shows "creating st0 st' self n"
    and "sp = SStr n \<Longrightarrow> n \<in> set (socket_names st' self)"
    and "n \<in> set (socket_names st self) \<Longrightarrow> n \<in> set (socket_names st' self)"
proof -
  from get_socket_create [OF g]
  consider (found) "same_objects st' st" "\<forall>n. sp = SStr n \<longrightarrow> n \<in> set (socket_names st self)"
    | (made) st1 nm cv where "same_objects st1 st"
        "add_socket st1 self nm cv (Some ''in'') True = Inr st'" "\<forall>n. sp = SStr n \<longrightarrow> nm = n"
    by blast
  then have "creating st0 st' self n \<and> (sp = SStr n \<longrightarrow> n \<in> set (socket_names st' self))
     \<and> (n \<in> set (socket_names st self) \<longrightarrow> n \<in> set (socket_names st' self))"
  proof cases
    case found
    then show ?thesis using c by (simp add: same_objects_creating same_objects_names)
  next
    case made
    from c made(1) have "creating st0 st1 self n" by (simp add: same_objects_creating)
    from add_socket_creating [OF made(2) this] made(3) same_objects_names [OF made(1)]
    show ?thesis by auto
  qed
  then show "creating st0 st' self n"
    and "sp = SStr n \<Longrightarrow> n \<in> set (socket_names st' self)"
    and "n \<in> set (socket_names st self) \<Longrightarrow> n \<in> set (socket_names st' self)" by auto
qed

lemma get_sockets_creating:
  "get_sockets st self sps = Inr (st', xs) \<Longrightarrow> creating st0 st self n \<Longrightarrow>
   creating st0 st' self n
   \<and> (n \<in> set (socket_names st self) \<or> SStr n \<in> set sps \<longrightarrow> n \<in> set (socket_names st' self))"
proof (induction sps arbitrary: st xs)
  case Nil
  then show ?case by simp
next
  case (Cons sp sps)
  from Cons.prems(1) obtain st1 x ys where
    g: "get_socket st self sp None True = Inr (st1, x)"
    and r: "get_sockets st1 self sps = Inr (st', ys)"
    by (auto split: sum.splits prod.splits)
  note s = get_socket_creating [OF g Cons.prems(2)]
  from Cons.IH [OF r s(1)] s(2,3) show ?case by auto
qed

lemma creating_refl: "n \<notin> set (socket_names st self) \<Longrightarrow> creating st st self n"
  by (simp add: creating_def)

lemma fold_connect_to_creating:
  "creating st0 (fold (\<lambda>s acc. connect_to acc s c) xs st) self n = creating st0 st self n"
  by (induction xs arbitrary: st)
     (simp_all add: creating_def auto_created_def socket_names_def)

lemma fold_connect_from_creating:
  "creating st0 (fold (\<lambda>s acc. connect_from acc s c) xs st) self n = creating st0 st self n"
  by (induction xs arbitrary: st)
     (simp_all add: creating_def auto_created_def socket_names_def)

lemma fold_connect_to_names:
  "socket_names (fold (\<lambda>s acc. connect_to acc s c) xs st) self = socket_names st self"
  by (induction xs arbitrary: st) (simp_all add: socket_names_def)

lemma fold_connect_from_names:
  "socket_names (fold (\<lambda>s acc. connect_from acc s c) xs st) self = socket_names st self"
  by (induction xs arbitrary: st) (simp_all add: socket_names_def)

lemma graph_fn_record_creating:
  "creating st0 (st\<lparr>components := (components st)
       (self := (components st self)\<lparr>graph_fns := g\<rparr>)\<rparr>) self n = creating st0 st self n"
  "socket_names (st\<lparr>components := (components st)
       (self := (components st self)\<lparr>graph_fns := g\<rparr>)\<rparr>) self = socket_names st self"
  "creating st0 (st\<lparr>components := (components st)
       (self := (components st self)\<lparr>no_input_entry_points := g\<rparr>)\<rparr>) self n = creating st0 st self n"
  "socket_names (st\<lparr>components := (components st)
       (self := (components st self)\<lparr>no_input_entry_points := g\<rparr>)\<rparr>) self = socket_names st self"
  by (simp_all add: creating_def auto_created_def socket_names_def)

lemma add_graph_fn_Inr:
  assumes "add_graph_fn st self inputs outputs method_arg callables fl sp ak un = Inr st'"
  shows "\<exists>st1 ins st2 outs.
           get_sockets st self inputs = Inr (st1, ins)
           \<and> get_sockets st1 self outputs = Inr (st2, outs)
           \<and> (\<forall>st0 n. creating st0 st' self n = creating st0 st2 self n)
           \<and> socket_names st' self = socket_names st2 self"
proof -
  from assms obtain st1 ins where a: "get_sockets st self inputs = Inr (st1, ins)"
    by (auto simp: add_graph_fn_def split: sum.splits)
  from assms a obtain st2 outs where b: "get_sockets st1 self outputs = Inr (st2, outs)"
    by (auto simp: add_graph_fn_def split: sum.splits)
  from assms a b have
    "(\<forall>st0 n. creating st0 st' self n = creating st0 st2 self n)
     \<and> socket_names st' self = socket_names st2 self"
    by (auto simp: add_graph_fn_def Let_def graph_fn_record_creating
        fold_connect_to_creating fold_connect_from_creating
        fold_connect_to_names fold_connect_from_names
        split: sum.splits if_splits)
  with a b show ?thesis by blast
qed

text \<open>A spec that is a name is always resolved, by lookup or by creation.\<close>

lemma get_socket_by_name_None:
  "get_socket_by_name st self n None = None \<Longrightarrow> n \<notin> set (socket_names st self)"
  by (auto simp: get_socket_by_name_def socket_names_def Let_def find_None_iff
      split: option.splits)

lemma get_socket_by_name_named:
  "n \<in> set (socket_names st self) \<Longrightarrow> \<exists>x. get_socket_by_name st self n None = Some x"
  using get_socket_by_name_None [of st self n] by (cases "get_socket_by_name st self n None") auto

lemma add_socket_new_returns:
  "n \<notin> set (socket_names st self) \<Longrightarrow> \<exists>st'. add_socket st self n cv (Some ty) internal = Inr st'"
  by (auto simp: add_socket_def socket_names_def Let_def)

lemma get_socket_name_returns:
  "\<exists>st' x. get_socket st self (SStr n) None True = Inr (st', x)"
proof (cases "get_socket_by_name st self n None")
  case (Some x)
  then show ?thesis by (simp add: get_socket_def resolve_socket_def)
next
  case None
  from add_socket_new_returns [OF get_socket_by_name_None [OF None]]
  obtain st2 where a: "add_socket st self n None (Some ''in'') True = Inr st2" by blast
  have "n \<in> set (socket_names st2 self)"
    by (simp add: socket_names_def add_socket_internal_effect [OF a])
  from get_socket_by_name_named [OF this] obtain x where
    "get_socket_by_name st2 self n None = Some x" by blast
  with None a show ?thesis by (simp add: get_socket_def resolve_socket_def)
qed

lemma get_sockets_names_return:
  "\<exists>st' xs. get_sockets st self (map SStr ns) = Inr (st', xs)"
proof (induction ns arbitrary: st)
  case Nil
  then show ?case by simp
next
  case (Cons n ns)
  from get_socket_name_returns obtain st1 x where
    "get_socket st self (SStr n) None True = Inr (st1, x)" by blast
  moreover from Cons [of st1] obtain st2 xs where
    "get_sockets st1 self (map SStr ns) = Inr (st2, xs)" by blast
  ultimately show ?case by simp
qed

lemma add_graph_fn_names_returns:
  "\<exists>st'. add_graph_fn st self (map SStr ins) (map SStr outs) (Some m) callables fl sp ak un = Inr st'"
proof -
  from get_sockets_names_return obtain st1 xs where
    a: "get_sockets st self (map SStr ins) = Inr (st1, xs)" by blast
  from get_sockets_names_return obtain st2 ys where
    b: "get_sockets st1 self (map SStr outs) = Inr (st2, ys)" by blast
  from a b show ?thesis by (simp add: add_graph_fn_def Let_def)
qed

text \<open>
  Claim C10: in \<open>add_graph_fn\<close>, an input or output name that names no socket of the
  component is created as an internal socket of type \<open>"in"\<close>, also when it stands in the
  outputs list; the exposed in- and out-socket lists are as before.
\<close>

theorem add_graph_fn_creates_internal_in:
  "add_graph_fn st self inputs outputs method_arg callables fl sp ak un = Inr st'
   \<and> SStr n \<in> set inputs \<union> set outputs \<and> n \<notin> set (socket_names st self)
   \<longrightarrow> auto_created st st' self n
       \<and> input_sockets (components st' self) = input_sockets (components st self)
       \<and> output_sockets (components st' self) = output_sockets (components st self)"
proof
  assume h: "add_graph_fn st self inputs outputs method_arg callables fl sp ak un = Inr st'
   \<and> SStr n \<in> set inputs \<union> set outputs \<and> n \<notin> set (socket_names st self)"
  from add_graph_fn_Inr [of st self inputs outputs method_arg callables fl sp ak un st'] h
  obtain st1 ins st2 outs where
    a: "get_sockets st self inputs = Inr (st1, ins)"
    and b: "get_sockets st1 self outputs = Inr (st2, outs)"
    and c: "\<And>st0 n. creating st0 st' self n = creating st0 st2 self n"
    and d: "socket_names st' self = socket_names st2 self"
    by blast
  from h have "creating st st self n" by (simp add: creating_refl)
  note s1 = get_sockets_creating [OF a this]
  note s2 = get_sockets_creating [OF b conjunct1 [OF s1]]
  from s1 s2 h have "n \<in> set (socket_names st2 self)" by auto
  with s2 c d have "creating st st' self n" "n \<in> set (socket_names st' self)" by auto
  then show "auto_created st st' self n
       \<and> input_sockets (components st' self) = input_sockets (components st self)
       \<and> output_sockets (components st' self) = output_sockets (components st self)"
    by (simp add: creating_def)
qed

theorem add_graph_fn_creates_internal_in_witness:
  "\<exists>st'. add_graph_fn wired_state 0 [SStr ''input''] [SStr ''result''] (Some ''f'') []
            None None None None = Inr st'
     \<and> auto_created wired_state st' 0 ''result''
     \<and> output_sockets (components st' 0) = [1]"
proof -
  from add_graph_fn_names_returns [of wired_state 0 "[''input'']" "[''result'']" "''f''" "[]"
      None None None None]
  obtain st' where a: "add_graph_fn wired_state 0 [SStr ''input''] [SStr ''result''] (Some ''f'') []
            None None None None = Inr st'" by auto
  have n: "''result'' \<notin> set (socket_names wired_state 0)"
    by (simp add: socket_names_def wired_state_def init_fields_def)
  have o: "output_sockets (components wired_state 0) = [1]"
    by (simp add: wired_state_def init_fields_def)
  from add_graph_fn_creates_internal_in
    [where st = wired_state and self = 0 and inputs = "[SStr ''input'']"
       and outputs = "[SStr ''result'']" and method_arg = "Some ''f''" and callables = "[]"
       and fl = None and sp = None and ak = None and un = None and st' = st'
       and n = "''result''"] a n o
  show ?thesis by auto
qed

section \<open>Inferring the direction of a socket\<close>

lemma left_delimited_Cons:
  "left_delimited prev (d # pre) c
     = ((pre = [] \<and> (is_digit d \<or> d = CHR ''_'')) \<or> left_delimited (Some d) pre c)"
  by (auto simp: left_delimited_def)

lemma left_delimited_Nil: "left_delimited prev [] c = word_boundary prev (Some c)"
  by (simp add: left_delimited_def)

lemma keyword_at_Some:
  assumes "keyword_at s = Some t"
  shows "(t = ''in'' \<and> (\<exists>post. s = ''input'' @ post \<and> delimiter_after post))
       \<or> (t = ''out'' \<and> (\<exists>post. s = ''output'' @ post \<and> delimiter_after post))"
proof -
  have i: "take 5 s = ''input'' \<Longrightarrow> s = ''input'' @ drop 5 s"
    using append_take_drop_id [of 5 s] by simp
  have o: "take 6 s = ''output'' \<Longrightarrow> s = ''output'' @ drop 6 s"
    using append_take_drop_id [of 6 s] by simp
  from assms show ?thesis
    unfolding keyword_at_def using i o by (auto split: if_splits)
qed

lemma keyword_at_input: "delimiter_after post \<Longrightarrow> keyword_at (''input'' @ post) = Some ''in''"
  by (simp add: keyword_at_def)

lemma keyword_at_output: "delimiter_after post \<Longrightarrow> keyword_at (''output'' @ post) = Some ''out''"
  by (simp add: keyword_at_def)

lemma keyword_at_words:
  "kw = ''input'' \<or> kw = ''output'' \<Longrightarrow> delimiter_after post \<Longrightarrow> keyword_at (kw @ post) \<noteq> None"
  using keyword_at_input keyword_at_output by auto

lemma match_at_Some:
  assumes "match_at prev s = Some t"
  shows "(t = ''in'' \<and> (\<exists>pre post. s = pre @ ''input'' @ post \<and> length pre \<le> 1
            \<and> left_delimited prev pre CHR ''i'' \<and> delimiter_after post))
       \<or> (t = ''out'' \<and> (\<exists>pre post. s = pre @ ''output'' @ post \<and> length pre \<le> 1
            \<and> left_delimited prev pre CHR ''o'' \<and> delimiter_after post))"
proof (cases "\<exists>c s'. s = c # s' \<and> (is_digit c \<or> c = CHR ''_'') \<and> keyword_at s' = Some t")
  case True
  then obtain c s' where s: "s = c # s'" "is_digit c \<or> c = CHR ''_''" "keyword_at s' = Some t"
    by blast
  from keyword_at_Some [OF s(3)] show ?thesis
  proof
    assume "t = ''in'' \<and> (\<exists>post. s' = ''input'' @ post \<and> delimiter_after post)"
    then obtain post where "t = ''in''" "s' = ''input'' @ post" "delimiter_after post" by blast
    with s have "s = [c] @ ''input'' @ post \<and> length [c] \<le> 1
        \<and> left_delimited prev [c] CHR ''i'' \<and> delimiter_after post"
      by (simp add: left_delimited_def)
    with \<open>t = ''in''\<close> show ?thesis by blast
  next
    assume "t = ''out'' \<and> (\<exists>post. s' = ''output'' @ post \<and> delimiter_after post)"
    then obtain post where "t = ''out''" "s' = ''output'' @ post" "delimiter_after post" by blast
    with s have "s = [c] @ ''output'' @ post \<and> length [c] \<le> 1
        \<and> left_delimited prev [c] CHR ''o'' \<and> delimiter_after post"
      by (simp add: left_delimited_def)
    with \<open>t = ''out''\<close> show ?thesis by blast
  qed
next
  case False
  with assms have k: "keyword_at s = Some t"
    and w: "word_boundary prev (case s of [] \<Rightarrow> None | c # _ \<Rightarrow> Some c)"
    by (auto simp: match_at_def split: list.splits option.splits if_splits)
  from keyword_at_Some [OF k] show ?thesis
  proof
    assume "t = ''in'' \<and> (\<exists>post. s = ''input'' @ post \<and> delimiter_after post)"
    then obtain post where p: "t = ''in''" "s = ''input'' @ post" "delimiter_after post" by blast
    with w have "s = [] @ ''input'' @ post \<and> length ([]::string) \<le> 1
        \<and> left_delimited prev [] CHR ''i'' \<and> delimiter_after post"
      by (simp add: left_delimited_def)
    with p(1) show ?thesis by blast
  next
    assume "t = ''out'' \<and> (\<exists>post. s = ''output'' @ post \<and> delimiter_after post)"
    then obtain post where p: "t = ''out''" "s = ''output'' @ post" "delimiter_after post" by blast
    with w have "s = [] @ ''output'' @ post \<and> length ([]::string) \<le> 1
        \<and> left_delimited prev [] CHR ''o'' \<and> delimiter_after post"
      by (simp add: left_delimited_def)
    with p(1) show ?thesis by blast
  qed
qed

lemma match_at_None_word:
  assumes m: "match_at prev (kw @ post) = None"
    and kw: "kw = ''input'' \<or> kw = ''output''"
    and d: "delimiter_after post"
  shows "\<not> word_boundary prev (Some (hd kw))"
proof
  assume w: "word_boundary prev (Some (hd kw))"
  from kw obtain c r where s: "kw @ post = c # r" "hd kw = c" by auto
  from keyword_at_words [OF kw d] obtain t where k: "keyword_at (kw @ post) = Some t" by auto
  from m s w k show False
    by (auto simp: match_at_def split: option.splits if_splits)
qed

lemma match_at_None_consumed:
  assumes m: "match_at prev (c # kw @ post) = None"
    and kw: "kw = ''input'' \<or> kw = ''output''"
    and d: "delimiter_after post"
  shows "\<not> (is_digit c \<or> c = CHR ''_'')"
proof
  assume c: "is_digit c \<or> c = CHR ''_''"
  from keyword_at_words [OF kw d] obtain t where k: "keyword_at (kw @ post) = Some t" by auto
  from m c k show False by (auto simp: match_at_def)
qed

lemma search_from_None:
  assumes kw: "kw = ''input'' \<or> kw = ''output''"
  shows "search_from prev s = None \<Longrightarrow> \<not> occurs_delimited prev kw s"
proof (induction s arbitrary: prev)
  case Nil
  from kw show ?case by (auto simp: occurs_delimited_def)
next
  case (Cons c s)
  from Cons.prems have m: "match_at prev (c # s) = None" and r: "search_from (Some c) s = None"
    by (auto split: option.splits)
  note ih = Cons.IH [OF r]
  show ?case
  proof
    assume "occurs_delimited prev kw (c # s)"
    then obtain pre post where p: "c # s = pre @ kw @ post"
      "left_delimited prev pre (hd kw)" "delimiter_after post"
      by (auto simp: occurs_delimited_def)
    show False
    proof (cases pre)
      case Nil
      with p m match_at_None_word [OF _ kw p(3), of prev] show False
        by (simp add: left_delimited_Nil)
    next
      case (Cons d pre')
      with p have e: "d = c" "s = pre' @ kw @ post" by auto
      from p(2) Cons e have "(pre' = [] \<and> (is_digit c \<or> c = CHR ''_''))
          \<or> left_delimited (Some c) pre' (hd kw)"
        by (simp add: left_delimited_Cons)
      then show False
      proof
        assume a: "pre' = [] \<and> (is_digit c \<or> c = CHR ''_'')"
        with e m match_at_None_consumed [OF _ kw p(3), of prev c] show False by simp
      next
        assume "left_delimited (Some c) pre' (hd kw)"
        with e p(3) have "occurs_delimited (Some c) kw s"
          by (auto simp: occurs_delimited_def)
        with ih show False by simp
      qed
    qed
  qed
qed

lemma occurs_delimited_Cons:
  "occurs_delimited (Some c) kw s \<Longrightarrow> occurs_delimited prev kw (c # s)"
proof -
  assume "occurs_delimited (Some c) kw s"
  then obtain pre post where p: "s = pre @ kw @ post"
    "left_delimited (Some c) pre (hd kw)" "delimiter_after post"
    by (auto simp: occurs_delimited_def)
  then have "c # s = (c # pre) @ kw @ post \<and> left_delimited prev (c # pre) (hd kw)
      \<and> delimiter_after post"
    by (simp add: left_delimited_Cons)
  then show ?thesis unfolding occurs_delimited_def by blast
qed

lemma search_from_Some:
  "search_from prev s = Some t \<Longrightarrow>
   (t = ''in'' \<and> occurs_delimited prev ''input'' s)
   \<or> (t = ''out'' \<and> occurs_delimited prev ''output'' s)"
proof (induction s arbitrary: prev)
  case Nil
  then show ?case by (simp add: match_at_def keyword_at_def split: if_splits)
next
  case (Cons c s)
  show ?case
  proof (cases "match_at prev (c # s)")
    case (Some t')
    with Cons.prems have "t' = t" by simp
    with match_at_Some [OF Some] show ?thesis
      by (auto simp: occurs_delimited_def)
  next
    case None
    with Cons.prems have "search_from (Some c) s = Some t" by simp
    from Cons.IH [OF this] show ?thesis
      by (auto intro: occurs_delimited_Cons)
  qed
qed

text \<open>
  What the pattern of \<open>add_socket\<close> accepts: with the direction omitted, the name is
  searched for \<open>input\<close> or \<open>output\<close> standing as a delimited word. Inference fails,
  and the error is raised, exactly when neither stands so in the name; otherwise the call is
  the one with the direction found, which is \<open>"in"\<close> only if \<open>input\<close> stands so and
  \<open>"out"\<close> only if \<open>output\<close> does.
\<close>

lemma infer_socket_type_delimited_word:
  "((infer_socket_type nm = None) = (\<not> delimited_word ''input'' nm \<and> \<not> delimited_word ''output'' nm))
   \<and> (infer_socket_type nm = Some t \<longrightarrow>
        (t = ''in'' \<and> delimited_word ''input'' nm) \<or> (t = ''out'' \<and> delimited_word ''output'' nm))
   \<and> (infer_socket_type nm = None \<longrightarrow> add_socket st self nm cv None internal = Inl YARLError)
   \<and> (infer_socket_type nm = Some t \<longrightarrow>
        add_socket st self nm cv None internal = add_socket st self nm cv (Some t) internal)"
proof (intro conjI impI)
  show "(infer_socket_type nm = None)
      = (\<not> delimited_word ''input'' nm \<and> \<not> delimited_word ''output'' nm)"
  proof
    assume "infer_socket_type nm = None"
    then show "\<not> delimited_word ''input'' nm \<and> \<not> delimited_word ''output'' nm"
      using search_from_None [of "''input''" None nm] search_from_None [of "''output''" None nm]
      by (simp add: infer_socket_type_def delimited_word_def)
  next
    assume n: "\<not> delimited_word ''input'' nm \<and> \<not> delimited_word ''output'' nm"
    show "infer_socket_type nm = None"
    proof (cases "infer_socket_type nm")
      case (Some t')
      with search_from_Some [of None nm t'] n show ?thesis
        by (auto simp: infer_socket_type_def delimited_word_def)
    qed simp
  qed
next
  assume "infer_socket_type nm = Some t"
  with search_from_Some [of None nm t]
  show "(t = ''in'' \<and> delimited_word ''input'' nm) \<or> (t = ''out'' \<and> delimited_word ''output'' nm)"
    by (simp add: infer_socket_type_def delimited_word_def)
next
  assume "infer_socket_type nm = None"
  then show "add_socket st self nm cv None internal = Inl YARLError"
    by (simp add: add_socket_def Let_def)
next
  assume "infer_socket_type nm = Some t"
  then show "add_socket st self nm cv None internal = add_socket st self nm cv (Some t) internal"
    by (simp add: add_socket_def Let_def)
qed

lemmas regex_defs = infer_socket_type_def match_at_def keyword_at_def word_boundary_def
  is_word_char_def is_digit_def delimiter_after_def

lemma infer_examples:
  "infer_socket_type ''myinput'' = None"
  "infer_socket_type ''inputs'' = None"
  "infer_socket_type ''my_input'' = Some ''in''"
  "infer_socket_type ''action-output'' = Some ''out''"
  by (simp_all add: regex_defs)

text \<open>
  Claim C6: with the direction omitted, any name containing the substring \<open>input\<close> yields
  an in-socket. The code departs from it, and from the docstring of \<open>add_socket\<close>
  (\<open>If name contains "input" -> type is "in"\<close>): the names \<open>myinput\<close> and \<open>inputs\<close>
  contain \<open>input\<close>, and for each of them \<open>add_socket\<close> raises the error of a failed
  inference, whatever the component.
\<close>

theorem add_socket_substring_input_raises:
  "''myinput'' = ''my'' @ ''input'' @ []
   \<and> add_socket st self ''myinput'' cv None internal = Inl YARLError
   \<and> ''inputs'' = [] @ ''input'' @ ''s''
   \<and> add_socket st self ''inputs'' cv None internal = Inl YARLError"
  by (simp add: add_socket_def Let_def infer_examples)

section \<open>Global scopes follow the tree\<close>

subsection \<open>Ancestors and trees\<close>






lemma anc_trans: "anc par b c \<Longrightarrow> anc par a b \<Longrightarrow> anc par a c"
  by (induction rule: anc.induct) (auto intro: anc.intros)



subsection \<open>What propagate_scope leaves alone, and when it returns\<close>


lemma frame_children:
  assumes "frame st' = frame st"
  shows "children st' = children st"
proof
  fix c
  show "children st' c = children st c"
    unfolding children_def by (simp only: frame_fields(2) [OF assms])
qed



lemma fold_sum_returns:
  assumes "I s0"
    and "\<And>s x. x \<in> set xs \<Longrightarrow> I s \<Longrightarrow> \<exists>s''. f s x = Inr s'' \<and> I s''"
  shows "\<exists>s'. fold (\<lambda>x r. case r of Inl e \<Rightarrow> Inl e | Inr s \<Rightarrow> f s x) xs (Inr s0) = Inr s'"
  using assms
proof (induction xs arbitrary: s0)
  case Nil
  then show ?case by simp
next
  case (Cons x xs)
  from Cons.prems(2) [of x s0] Cons.prems(1) obtain s1 where s: "f s0 x = Inr s1" "I s1" by auto
  have "\<exists>s'. fold (\<lambda>x r. case r of Inl e \<Rightarrow> Inl e | Inr s \<Rightarrow> f s x) xs (Inr s1) = Inr s'"
  proof (rule Cons.IH [OF s(2)])
    fix s y
    assume "y \<in> set xs" "I s"
    then show "\<exists>s''. f s y = Inr s'' \<and> I s''" using Cons.prems(2) [of y s] by simp
  qed
  with s(1) show ?case by simp
qed

lemma rescoped_children: "children (rescoped st self sub_component) c = children st c"
  by (simp add: rescoped_def children_def)

lemma propagate_scope_Suc:
  "propagate_scope (Suc d) st self sub_component =
     fold (\<lambda>sc r. case r of Inl e \<Rightarrow> Inl e | Inr s \<Rightarrow> propagate_scope d s sub_component sc)
       (children st sub_component) (Inr (rescoped st self sub_component))"
proof -
  have "propagate_scope (Suc d) st self sub_component =
     fold (\<lambda>sc r. case r of Inl e \<Rightarrow> Inl e | Inr s \<Rightarrow> propagate_scope d s sub_component sc)
       (children (rescoped st self sub_component) sub_component)
       (Inr (rescoped st self sub_component))"
    unfolding propagate_scope.simps rescoped_def children_def Let_def ..
  then show ?thesis by (simp only: rescoped_children)
qed

lemma rescoped_frame: "frame (rescoped st self sub_component) = frame st"
  by (auto simp: rescoped_def frame_def fun_eq_iff)




lemma propagate_scope_returns:
  "tree_below (children st) d x \<Longrightarrow> \<exists>st'. propagate_scope d st q x = Inr st'"
proof (induction d arbitrary: st q x)
  case 0
  then show ?case by simp
next
  case (Suc d)
  have "\<exists>s'. fold (\<lambda>sc r. case r of Inl e \<Rightarrow> Inl e | Inr s \<Rightarrow> propagate_scope d s x sc)
       (children st x) (Inr (rescoped st q x)) = Inr s'"
  proof (rule fold_sum_returns [where I = "\<lambda>s. frame s = frame st"])
    show "frame (rescoped st q x) = frame st" by (rule rescoped_frame)
  next
    fix s c
    assume a: "c \<in> set (children st x)" "frame s = frame st"
    from a(1) Suc.prems have "tree_below (children st) d c" by simp
    then have "tree_below (children s) d c" unfolding frame_children [OF a(2)] .
    from Suc.IH [OF this] obtain s'' where r: "propagate_scope d s x c = Inr s''" by blast
    from propagate_scope_frame [OF r] a(2) have "frame s'' = frame st" by simp
    with r show "\<exists>s''. propagate_scope d s x c = Inr s'' \<and> frame s'' = frame st" by blast
  qed
  then show ?case by (simp only: propagate_scope_Suc)
qed

subsection \<open>The scopes after propagate_scope\<close>











subsection \<open>Attaching a component\<close>




lemma attached_scope [simp]:
  "scope (components (attached st self component) c) = scope (components st c)"
  by (simp add: attached_def Let_def)

lemma attached_global_scope [simp]:
  "global_scope (components (attached st self component) c) = global_scope (components st c)"
  by (simp add: attached_def Let_def)






subsection \<open>Paths from the root\<close>







lemma add_component_None:
  "name (components st component) \<notin> fst ` set (sub_components (components st self))
   \<Longrightarrow> parent_component (components st component) = None
   \<Longrightarrow> add_component depth st self component None
       = propagate_scope depth (attached st self component) self component"
  by (simp add: add_component_def attached_def Let_def connect_spec_of_def split: sum.splits)

lemma add_component_returns:
  assumes "name (components st component) \<notin> fst ` set (sub_components (components st self))"
    and "parent_component (components st component) = None"
    and "tree_below (children (attached st self component)) depth component"
  shows "\<exists>st'. add_component depth st self component None = Inr st'"
  using propagate_scope_returns [OF assms(3)] add_component_None [OF assms(1,2)] by simp


subsection \<open>The family, assembled in two orders\<close>


















end
